theory Spec2Isabelle
  imports Complex_Main
begin

section \<open>Text\<close>

text \<open>
  A Python \<open>str\<close> is a sequence of code points. The texts of this development are over
  the code points 0 to 255 (Latin-1), one \<^typ>\<open>char\<close> per code point: every character the
  scraper names (the multiplication sign U+00D7, the plus-minus sign U+00B1, the degree
  sign U+00B0) lies there, and on that range the character classes below are the ones of
  Python 3: \<open>str.isspace\<close>, \<open>str.lower\<close>, and \<open>\d\<close> of the \<open>re\<close> module.
\<close>

definition code :: "char \<Rightarrow> nat" where
  "code c = of_char c"

definition times_sign :: char where
  "times_sign = CHR 0xD7"

definition plus_minus :: char where
  "plus_minus = CHR 0xB1"

definition degree_sign :: char where
  "degree_sign = CHR 0xB0"

definition is_digit :: "char \<Rightarrow> bool" where
  "is_digit c = (48 \<le> code c \<and> code c \<le> 57)"

text \<open>\<open>str.isspace\<close>, the characters that \<open>str.strip()\<close> removes.\<close>

definition py_isspace :: "char \<Rightarrow> bool" where
  "py_isspace c =
     ((9 \<le> code c \<and> code c \<le> 13) \<or> (28 \<le> code c \<and> code c \<le> 32)
      \<or> code c = 133 \<or> code c = 160)"

definition strip :: "string \<Rightarrow> string" where
  "strip s = rev (dropWhile py_isspace (rev (dropWhile py_isspace s)))"

definition lower_char :: "char \<Rightarrow> char" where
  "lower_char c =
     (if (65 \<le> code c \<and> code c \<le> 90) \<or> (192 \<le> code c \<and> code c \<le> 222 \<and> code c \<noteq> 215)
      then char_of (code c + 32) else c)"

definition lower :: "string \<Rightarrow> string" where
  "lower s = map lower_char s"

text \<open>\<open>k in s\<close> on strings: \<open>k\<close> occurs as a contiguous substring of \<open>s\<close>.\<close>

fun starts_with :: "string \<Rightarrow> string \<Rightarrow> bool" where
  "starts_with s [] = True"
| "starts_with [] (k # ks) = False"
| "starts_with (c # cs) (k # ks) = (c = k \<and> starts_with cs ks)"

fun contains :: "string \<Rightarrow> string \<Rightarrow> bool" where
  "contains [] k = (k = [])"
| "contains (c # cs) k = (starts_with (c # cs) k \<or> contains cs k)"

text \<open>\<open>sep.join(parts)\<close>.\<close>

fun join :: "string \<Rightarrow> string list \<Rightarrow> string" where
  "join sep [] = []"
| "join sep [p] = p"
| "join sep (p # q # ps) = p @ sep @ join sep (q # ps)"

section \<open>Floats\<close>

text \<open>
  A Python \<open>float\<close> is a finite number, one of the two infinities, or a NaN. A finite
  float is represented by the real number it stands for; the rounding of a decimal
  literal to the nearest binary64 value is not part of the model. The comparisons are
  those of IEEE 754: every ordered comparison with a NaN is false.
\<close>

datatype pyfloat = Fin real | PInf | NInf | NaN

fun flt :: "pyfloat \<Rightarrow> pyfloat \<Rightarrow> bool" where
  "flt (Fin a) (Fin b) = (a < b)"
| "flt (Fin a) PInf = True"
| "flt NInf (Fin b) = True"
| "flt NInf PInf = True"
| "flt _ _ = False"

definition fgt :: "pyfloat \<Rightarrow> pyfloat \<Rightarrow> bool" where
  "fgt a b = flt b a"

definition fle :: "pyfloat \<Rightarrow> pyfloat \<Rightarrow> bool" where
  "fle a b = (flt a b \<or> (a = b \<and> a \<noteq> NaN))"

definition fge :: "pyfloat \<Rightarrow> pyfloat \<Rightarrow> bool" where
  "fge a b = fle b a"

definition is_nan :: "pyfloat \<Rightarrow> bool" where
  "is_nan a = (a = NaN)"

datatype exn = ValueError | OSError | AttributeError | KeyError

subsection \<open>The built-in \<open>float(str)\<close>\<close>

text \<open>
  \<open>float(s)\<close> accepts, between optional surrounding whitespace, an optional sign followed
  by \<open>inf\<close>, \<open>infinity\<close> or \<open>nan\<close> in any case, or by a decimal number: digits with
  an optional point (at least one digit in all), and an optional exponent. Single
  underscores between two digits are allowed and ignored. Any other text raises
  \<open>ValueError\<close>, here \<open>None\<close>.
\<close>

definition to_ascii :: "string \<Rightarrow> string" where
  "to_ascii s =
     map (\<lambda>c. if 127 < code c then (if py_isspace c then CHR '' '' else CHR ''?'') else c) s"

fun underscores_ok :: "char \<Rightarrow> string \<Rightarrow> bool" where
  "underscores_ok prev [] = (prev \<noteq> CHR ''_'')"
| "underscores_ok prev (c # cs) =
     (if c = CHR ''_'' then is_digit prev \<and> underscores_ok c cs
      else (prev = CHR ''_'' \<longrightarrow> is_digit c) \<and> underscores_ok c cs)"

definition c_isspace :: "char \<Rightarrow> bool" where
  "c_isspace c = ((9 \<le> code c \<and> code c \<le> 13) \<or> code c = 32)"

definition c_strip :: "string \<Rightarrow> string" where
  "c_strip s = rev (dropWhile c_isspace (rev (dropWhile c_isspace s)))"

definition is_sign :: "char \<Rightarrow> bool" where
  "is_sign c = (c = CHR ''-'' \<or> c = CHR ''+'')"

definition is_exp_mark :: "char \<Rightarrow> bool" where
  "is_exp_mark c = (c = CHR ''e'' \<or> c = CHR ''E'')"

text \<open>An optional leading sign: whether it is a minus, and the rest.\<close>

definition split_sign :: "string \<Rightarrow> bool \<times> string" where
  "split_sign s =
     (case s of
        [] \<Rightarrow> (False, [])
      | c # r \<Rightarrow> if is_sign c then (c = CHR ''-'', r) else (False, s))"

definition digits_val :: "string \<Rightarrow> nat" where
  "digits_val ds = foldl (\<lambda>a c. 10 * a + (code c - 48)) 0 ds"

definition pow10 :: "int \<Rightarrow> real" where
  "pow10 e = (if 0 \<le> e then 10 ^ nat e else 1 / 10 ^ nat (- e))"

definition parse_exponent :: "string \<Rightarrow> int option" where
  "parse_exponent r =
     (case r of
        [] \<Rightarrow> Some 0
      | c # r' \<Rightarrow>
          if is_exp_mark c then
            (let (neg, ds) = split_sign r' in
             if ds \<noteq> [] \<and> list_all is_digit ds
             then Some (if neg then - int (digits_val ds) else int (digits_val ds))
             else None)
          else None)"

definition parse_decimal :: "string \<Rightarrow> real option" where
  "parse_decimal s =
     (let d1 = takeWhile is_digit s; r1 = dropWhile is_digit s;
          (d2, r2) = (case r1 of
                        [] \<Rightarrow> ([], [])
                      | c # r \<Rightarrow> if c = CHR ''.''
                                 then (takeWhile is_digit r, dropWhile is_digit r)
                                 else ([], r1))
      in if d1 = [] \<and> d2 = [] then None
         else (case parse_exponent r2 of
                 None \<Rightarrow> None
               | Some e \<Rightarrow> Some (real (digits_val (d1 @ d2)) / 10 ^ length d2 * pow10 e)))"

definition ascii_lower :: "string \<Rightarrow> string" where
  "ascii_lower s = map (\<lambda>c. if 65 \<le> code c \<and> code c \<le> 90 then char_of (code c + 32) else c) s"

definition float_body :: "string \<Rightarrow> pyfloat option" where
  "float_body s =
     (let (neg, b) = split_sign s in
      if ascii_lower b = ''inf'' \<or> ascii_lower b = ''infinity''
      then Some (if neg then NInf else PInf)
      else if ascii_lower b = ''nan'' then Some NaN
      else (case parse_decimal b of
              None \<Rightarrow> None
            | Some v \<Rightarrow> Some (Fin (if neg then - v else v))))"

definition py_float :: "string \<Rightarrow> pyfloat option" where
  "py_float s =
     (let a = to_ascii s in
      if \<not> underscores_ok (CHR 0x00) a then None
      else float_body (c_strip (filter (\<lambda>c. c \<noteq> CHR ''_'') a)))"

section \<open>The numeric extractor: \<open>_parse_number\<close>\<close>

text \<open>
  The character class of \<open>re.sub(r'[^\d.+-eE\<times>]', '', text)\<close>. Inside the brackets
  \<open>+-e\<close> is a range, from \<open>+\<close> (43) to \<open>e\<close> (101), so the characters that are kept
  are the digits, the point, every character from \<open>+\<close> to \<open>e\<close>, \<open>E\<close> and the
  multiplication sign.
\<close>

definition keep_char :: "char \<Rightarrow> bool" where
  "keep_char c =
     (is_digit c \<or> c = CHR ''.'' \<or> (43 \<le> code c \<and> code c \<le> 101) \<or> c = CHR ''E''
      \<or> c = times_sign)"

text \<open>
  One attempt of the pattern
  \<open>[-+]?[0-9]*\.?[0-9]+(?:[eE][-+]?[0-9]+)?\<close> at the start of a text: the text it
  matches there, if any. The sign is taken when present; the longest run of digits is
  followed by a point and further digits when at least one digit follows the point, and
  otherwise stands alone (and must not be empty); the exponent is taken when it is
  complete.
\<close>

definition match_sign :: "string \<Rightarrow> string \<times> string" where
  "match_sign s =
     (case s of
        [] \<Rightarrow> ([], [])
      | c # r \<Rightarrow> if is_sign c then ([c], r) else ([], s))"

definition match_exponent :: "string \<Rightarrow> string" where
  "match_exponent s =
     (case s of
        [] \<Rightarrow> []
      | c # r \<Rightarrow>
          if is_exp_mark c then
            (let (sg, r') = match_sign r; ds = takeWhile is_digit r'
             in if ds \<noteq> [] then c # sg @ ds else [])
          else [])"

definition match_mantissa :: "string \<Rightarrow> (string \<times> string) option" where
  "match_mantissa s =
     (let d = takeWhile is_digit s; r = dropWhile is_digit s in
      case r of
        [] \<Rightarrow> if d \<noteq> [] then Some (d, r) else None
      | c # r' \<Rightarrow>
          if c = CHR ''.'' \<and> takeWhile is_digit r' \<noteq> []
          then Some (d @ c # takeWhile is_digit r', dropWhile is_digit r')
          else if d \<noteq> [] then Some (d, r) else None)"

definition match_here :: "string \<Rightarrow> string option" where
  "match_here s =
     (let (sg, r) = match_sign s in
      case match_mantissa r of
        None \<Rightarrow> None
      | Some (m, r') \<Rightarrow> Some (sg @ m @ match_exponent r'))"

text \<open>\<open>re.findall(pattern, text)\<close>, of which the code uses the first element only.\<close>

fun first_number :: "string \<Rightarrow> string option" where
  "first_number [] = None"
| "first_number (c # cs) =
     (case match_here (c # cs) of
        Some m \<Rightarrow> Some m
      | None \<Rightarrow> first_number cs)"

text \<open>\<open>cleaned.split(sep)[0]\<close> for a separator of one character.\<close>

definition split_first :: "char \<Rightarrow> string \<Rightarrow> string" where
  "split_first sep s = takeWhile (\<lambda>c. c \<noteq> sep) s"

definition clean :: "string \<Rightarrow> string" where
  "clean text =
     (let cleaned = filter keep_char text;
          cleaned = map (\<lambda>c. if c = times_sign then CHR ''e'' else c) cleaned
      in if plus_minus \<in> set text then split_first plus_minus cleaned else cleaned)"

text \<open>
  \<open>_parse_number\<close>: \<open>Inr None\<close> is the return value \<open>None\<close>, \<open>Inr (Some x)\<close> a float,
  and \<open>Inl e\<close> an exception that leaves the function. The second call of \<open>float\<close> is
  inside the handler of the first, so a \<open>ValueError\<close> there is not caught.
\<close>

definition parse_number :: "string \<Rightarrow> exn + pyfloat option" where
  "parse_number text0 =
     (if text0 = [] \<or> text0 = ''-'' then Inr None
      else
        let text = strip text0 in
        case py_float (clean text) of
          Some x \<Rightarrow> Inr (Some x)
        | None \<Rightarrow>
            (case first_number text of
               None \<Rightarrow> Inr None
             | Some m \<Rightarrow>
                 (case py_float m of
                    Some x \<Rightarrow> Inr (Some x)
                  | None \<Rightarrow> Inl ValueError)))"

section \<open>The table parser\<close>

text \<open>
  What the parser reads of a \<open>table\<close> element: the text of each of its \<open>th\<close> cells,
  and for each of its \<open>tr\<close> rows the text of the row's \<open>td\<close> cells
  (\<open>get_text()\<close>, before \<open>strip()\<close>). A document is the list of its tables.
\<close>

record html_table =
  th_cells :: "string list"
  tr_rows :: "string list list"

type_synonym soup = "html_table list"

record thermo_rec =
  temperature :: pyfloat
  heat_capacity :: pyfloat
  entropy :: "pyfloat option"
  enthalpy_minus_h298 :: "pyfloat option"
  gibbs_free_energy :: "pyfloat option"

definition thermo_keywords :: "string list" where
  "thermo_keywords =
     [''temperature'', ''heat capacity'', ''entropy'', ''cp'' @ [degree_sign], ''cp'',
      ''enthalpy'', ''gibbs'', ''janaf'', ''thermodynamic'']"

text \<open>
  The loop \<open>for i, cell in enumerate(cells[1:], 1)\<close> over the local variables
  \<open>cp\<close>, \<open>entropy\<close>, \<open>enthalpy\<close> and \<open>gibbs\<close>, here \<open>(cp, ent, enth, gibbs)\<close>.
\<close>

fun scan_cells ::
  "nat \<Rightarrow> string list
   \<Rightarrow> pyfloat option \<times> pyfloat option \<times> pyfloat option \<times> pyfloat option
   \<Rightarrow> exn + pyfloat option \<times> pyfloat option \<times> pyfloat option \<times> pyfloat option" where
  "scan_cells i [] acc = Inr acc"
| "scan_cells i (cell # cells) (cp, ent, enth, gibbs) =
     (case parse_number (strip cell) of
        Inl e \<Rightarrow> Inl e
      | Inr None \<Rightarrow> scan_cells (Suc i) cells (cp, ent, enth, gibbs)
      | Inr (Some v) \<Rightarrow>
          scan_cells (Suc i) cells
            (if i = 1 then (Some v, ent, enth, gibbs)
             else if i = 2 then (cp, Some v, enth, gibbs)
             else if i = 3 then (cp, ent, enth, Some v)
             else if i = 4 then (cp, ent, Some v, gibbs)
             else (cp, ent, enth, gibbs)))"

text \<open>
  The body of the row loop: the record the row appends, or \<open>None\<close> when the row is
  skipped, by \<open>continue\<close> or by the handler of the surrounding \<open>try\<close>.
\<close>

definition parse_row :: "string list \<Rightarrow> thermo_rec option" where
  "parse_row cells =
     (if 2 \<le> length cells then
        (case parse_number (strip (hd cells)) of
           Inl e \<Rightarrow> None
         | Inr None \<Rightarrow> None
         | Inr (Some temp) \<Rightarrow>
             if flt temp (Fin 50) \<or> fgt temp (Fin 5000) then None
             else
               (case scan_cells 1 (tl cells) (None, None, None, None) of
                  Inl e \<Rightarrow> None
                | Inr (cp, ent, enth, gibbs) \<Rightarrow>
                    (case cp of
                       None \<Rightarrow> None
                     | Some c \<Rightarrow>
                         if fgt c (Fin 0)
                         then Some \<lparr>temperature = temp, heat_capacity = c, entropy = ent,
                                    enthalpy_minus_h298 = enth, gibbs_free_energy = gibbs\<rparr>
                         else None)))
      else None)"

fun parse_rows :: "string list list \<Rightarrow> thermo_rec list" where
  "parse_rows [] = []"
| "parse_rows (row # rows) =
     (case parse_row row of
        None \<Rightarrow> parse_rows rows
      | Some r \<Rightarrow> r # parse_rows rows)"

definition header_matches :: "html_table \<Rightarrow> bool" where
  "header_matches t =
     (let header_text = join '' '' (map strip (th_cells t))
      in list_ex (\<lambda>keyword. contains (lower header_text) keyword) thermo_keywords)"

definition parse_table :: "html_table \<Rightarrow> thermo_rec list" where
  "parse_table t =
     (if th_cells t = [] then []
      else if header_matches t then parse_rows (drop 1 (tr_rows t))
      else [])"

text \<open>\<open>_parse_thermodynamic_tables\<close>: a data frame is the list of its rows.\<close>

definition parse_thermodynamic_tables :: "soup \<Rightarrow> thermo_rec list option" where
  "parse_thermodynamic_tables tables =
     (let data = concat (map parse_table tables)
      in if data = [] then None else Some data)"

subsection \<open>Phase-change properties\<close>

record phase_data =
  boiling_point_K :: "pyfloat option"
  heat_of_vaporization :: "pyfloat option"
  melting_point_K :: "pyfloat option"
  heat_of_fusion :: "pyfloat option"

definition no_phase_data :: phase_data where
  "no_phase_data =
     \<lparr>boiling_point_K = None, heat_of_vaporization = None,
      melting_point_K = None, heat_of_fusion = None\<rparr>"

definition classify :: "string \<Rightarrow> pyfloat \<Rightarrow> phase_data \<Rightarrow> phase_data" where
  "classify property_name v pd =
     (if contains property_name ''boiling'' \<or> contains property_name ''vaporization'' then
        (if contains property_name ''temperature'' \<or> contains property_name ''point''
         then pd\<lparr>boiling_point_K := Some v\<rparr>
         else if contains property_name ''enthalpy''
         then pd\<lparr>heat_of_vaporization := Some v\<rparr>
         else pd)
      else if contains property_name ''melting'' \<or> contains property_name ''fusion'' then
        (if contains property_name ''temperature'' \<or> contains property_name ''point''
         then pd\<lparr>melting_point_K := Some v\<rparr>
         else if contains property_name ''enthalpy''
         then pd\<lparr>heat_of_fusion := Some v\<rparr>
         else pd)
      else pd)"

definition phase_row :: "phase_data \<Rightarrow> string list \<Rightarrow> exn + phase_data" where
  "phase_row pd cells =
     (if 2 \<le> length cells then
        (let property_name = lower (strip (cells ! 0));
             value_text = strip (cells ! 1)
         in case parse_number value_text of
              Inl e \<Rightarrow> Inl e
            | Inr None \<Rightarrow> Inr pd
            | Inr (Some v) \<Rightarrow> Inr (classify property_name v pd))
      else Inr pd)"

fun phase_rows :: "phase_data \<Rightarrow> string list list \<Rightarrow> exn + phase_data" where
  "phase_rows pd [] = Inr pd"
| "phase_rows pd (row # rows) =
     (case phase_row pd row of
        Inl e \<Rightarrow> Inl e
      | Inr pd' \<Rightarrow> phase_rows pd' rows)"

fun phase_tables :: "phase_data \<Rightarrow> soup \<Rightarrow> exn + phase_data" where
  "phase_tables pd [] = Inr pd"
| "phase_tables pd (t # ts) =
     (case phase_rows pd (tr_rows t) of
        Inl e \<Rightarrow> Inl e
      | Inr pd' \<Rightarrow> phase_tables pd' ts)"

definition parse_phase_change_data :: "soup \<Rightarrow> exn + phase_data" where
  "parse_phase_change_data tables = phase_tables no_phase_data tables"

section \<open>The scraper\<close>

text \<open>
  What the program does not decide itself is a parameter of the model: the answers of
  the remote site (\<open>search_compound\<close>, which handles its own errors and returns an
  identifier or \<open>None\<close>; the page of thermodynamic tables and the page of phase-change
  data of an identifier, or the exception of the request), whether a file can be written,
  the successive values returned by \<open>np.random.normal\<close>, and the built-in \<open>hash\<close> on
  strings of the running interpreter.
\<close>

record env =
  search_compound :: "string \<Rightarrow> string option"
  thermo_page :: "string \<Rightarrow> exn + soup"
  phase_page :: "string \<Rightarrow> exn + soup"
  writable :: "string \<Rightarrow> bool"
  random_normal :: "nat \<Rightarrow> real"
  hash :: "string \<Rightarrow> int"

text \<open>
  The value under \<open>'thermodynamic_data'\<close>: \<open>None\<close>, a data frame, or (after
  \<open>load_data\<close> only) a plain list.
\<close>

datatype thermo_data = NoData | Frame "thermo_rec list" | PyList "thermo_rec list"

record compound_result =
  formula :: string
  compound_id :: string
  thermodynamic_data :: thermo_data
  phase_change_data :: phase_data

text \<open>A \<open>dict\<close> keeps its keys in insertion order; assigning to a present key keeps its place.\<close>

definition dict_set :: "'k \<Rightarrow> 'v \<Rightarrow> ('k \<times> 'v) list \<Rightarrow> ('k \<times> 'v) list" where
  "dict_set k v d =
     (if k \<in> set (map fst d) then map (\<lambda>(k', v'). if k' = k then (k', v) else (k', v')) d
      else d @ [(k, v)])"

definition get_thermodynamic_data :: "env \<Rightarrow> string \<Rightarrow> thermo_data" where
  "get_thermodynamic_data ev cid =
     (case thermo_page ev cid of
        Inl e \<Rightarrow> NoData
      | Inr tables \<Rightarrow>
          (case parse_thermodynamic_tables tables of
             None \<Rightarrow> NoData
           | Some rows \<Rightarrow> Frame rows))"

definition get_phase_change_data :: "env \<Rightarrow> string \<Rightarrow> phase_data" where
  "get_phase_change_data ev cid =
     (case phase_page ev cid of
        Inl e \<Rightarrow> no_phase_data
      | Inr tables \<Rightarrow>
          (case parse_phase_change_data tables of
             Inl e \<Rightarrow> no_phase_data
           | Inr pd \<Rightarrow> pd))"

definition scrape_compound_data :: "env \<Rightarrow> string \<Rightarrow> compound_result option" where
  "scrape_compound_data ev formula_or_name =
     (case search_compound ev formula_or_name of
        None \<Rightarrow> None
      | Some cid \<Rightarrow>
          if cid = [] then None
          else Some \<lparr>formula = formula_or_name, compound_id = cid,
                     thermodynamic_data = get_thermodynamic_data ev cid,
                     phase_change_data = get_phase_change_data ev cid\<rparr>)"

subsection \<open>Training samples and files\<close>

record training_sample =
  row_compound :: string
  row_compound_id :: int
  row_temperature :: pyfloat
  row_heat_capacity :: pyfloat
  row_entropy :: "pyfloat option"
  row_enthalpy_minus_h298 :: "pyfloat option"
  row_molecular_weight :: "real option"
  row_n_atoms :: "int option"
  row_is_polar :: "int option"

record saved_result =
  saved_formula :: string
  saved_compound_id :: string
  saved_phase_change_data :: phase_data
  saved_thermodynamic_data :: "thermo_rec list option"

datatype file_content =
  JsonFile "(string \<times> saved_result) list"
| CsvFile "training_sample list"

text \<open>The state: the files written so far, and how many random values have been drawn.\<close>

record world =
  files :: "string \<Rightarrow> file_content option"
  rng :: nat

definition write_file :: "env \<Rightarrow> world \<Rightarrow> string \<Rightarrow> file_content \<Rightarrow> exn + world" where
  "write_file ev w filename content =
     (if writable ev filename then Inr (w\<lparr>files := (files w)(filename \<mapsto> content)\<rparr>)
      else Inl OSError)"

subsection \<open>\<open>save_data\<close> and \<open>load_data\<close>\<close>

definition serialize_one :: "compound_result \<Rightarrow> exn + saved_result" where
  "serialize_one compound_data =
     (case thermodynamic_data compound_data of
        NoData \<Rightarrow>
          Inr \<lparr>saved_formula = formula compound_data,
               saved_compound_id = compound_id compound_data,
               saved_phase_change_data = phase_change_data compound_data,
               saved_thermodynamic_data = None\<rparr>
      | Frame rows \<Rightarrow>
          Inr \<lparr>saved_formula = formula compound_data,
               saved_compound_id = compound_id compound_data,
               saved_phase_change_data = phase_change_data compound_data,
               saved_thermodynamic_data = Some rows\<rparr>
      | PyList rows \<Rightarrow> Inl AttributeError)"

fun serialize :: "(string \<times> compound_result) list \<Rightarrow> exn + (string \<times> saved_result) list" where
  "serialize [] = Inr []"
| "serialize ((compound, compound_data) # rest) =
     (case serialize_one compound_data of
        Inl e \<Rightarrow> Inl e
      | Inr sd \<Rightarrow>
          (case serialize rest of
             Inl e \<Rightarrow> Inl e
           | Inr others \<Rightarrow> Inr ((compound, sd) # others)))"

definition save_data ::
  "env \<Rightarrow> world \<Rightarrow> (string \<times> compound_result) list \<Rightarrow> string \<Rightarrow> exn + world" where
  "save_data ev w data filename =
     (case serialize data of
        Inl e \<Rightarrow> Inl e
      | Inr serializable_data \<Rightarrow> write_file ev w filename (JsonFile serializable_data))"



subsection \<open>\<open>scrape_multiple_compounds\<close>\<close>

function show_nat :: "nat \<Rightarrow> string" where
  "show_nat n =
     (if n < 10 then [char_of (48 + n)]
      else show_nat (n div 10) @ [char_of (48 + n mod 10)])"
  by pat_completeness auto
termination
  by (relation "measure id") auto

definition progress_file :: "nat \<Rightarrow> string" where
  "progress_file i = ''nist_data_progress_'' @ show_nat (i + 1) @ ''.json''"

text \<open>
  The loop \<open>for i, compound in enumerate(compound_list)\<close>, from index \<open>i\<close> on. An
  exception of \<open>save_data\<close> is caught by the handler of the loop body, which goes on
  with the next compound.
\<close>

fun scrape_loop ::
  "env \<Rightarrow> bool \<Rightarrow> nat \<Rightarrow> string list \<Rightarrow> (string \<times> compound_result) list \<Rightarrow> world
   \<Rightarrow> (string \<times> compound_result) list \<times> world" where
  "scrape_loop ev save_progress i [] results w = (results, w)"
| "scrape_loop ev save_progress i (compound # rest) results w =
     (case scrape_compound_data ev compound of
        None \<Rightarrow> scrape_loop ev save_progress (Suc i) rest results w
      | Some data \<Rightarrow>
          (let results' = dict_set compound data results in
           if save_progress \<and> (i + 1) mod 5 = 0 then
             (case save_data ev w results' (progress_file i) of
                Inl e \<Rightarrow> scrape_loop ev save_progress (Suc i) rest results' w
              | Inr w' \<Rightarrow> scrape_loop ev save_progress (Suc i) rest results' w')
           else scrape_loop ev save_progress (Suc i) rest results' w))"

definition scrape_multiple_compounds ::
  "env \<Rightarrow> world \<Rightarrow> string list \<Rightarrow> bool \<Rightarrow> (string \<times> compound_result) list \<times> world" where
  "scrape_multiple_compounds ev w compound_list save_progress =
     scrape_loop ev save_progress 0 compound_list [] w"

section \<open>The training table\<close>

record mol_props =
  molecular_weight :: real
  n_atoms :: int
  is_polar :: int

definition properties :: "(string \<times> mol_props) list" where
  "properties =
     [(''H2O'', \<lparr>molecular_weight = 18015 / 1000, n_atoms = 3, is_polar = 1\<rparr>),
      (''CO2'', \<lparr>molecular_weight = 4401 / 100, n_atoms = 3, is_polar = 0\<rparr>),
      (''CH4'', \<lparr>molecular_weight = 1604 / 100, n_atoms = 5, is_polar = 0\<rparr>),
      (''NH3'', \<lparr>molecular_weight = 1703 / 100, n_atoms = 4, is_polar = 1\<rparr>),
      (''C2H5OH'', \<lparr>molecular_weight = 4607 / 100, n_atoms = 9, is_polar = 1\<rparr>),
      (''N2'', \<lparr>molecular_weight = 2801 / 100, n_atoms = 2, is_polar = 0\<rparr>),
      (''O2'', \<lparr>molecular_weight = 32, n_atoms = 2, is_polar = 0\<rparr>),
      (''C6H6'', \<lparr>molecular_weight = 7811 / 100, n_atoms = 12, is_polar = 0\<rparr>),
      (''C8H18'', \<lparr>molecular_weight = 11423 / 100, n_atoms = 26, is_polar = 0\<rparr>),
      (''NaCl'', \<lparr>molecular_weight = 5844 / 100, n_atoms = 2, is_polar = 1\<rparr>)]"

definition get_molecular_properties :: "string \<Rightarrow> mol_props" where
  "get_molecular_properties compound =
     (case map_of properties compound of
        Some p \<Rightarrow> p
      | None \<Rightarrow> \<lparr>molecular_weight = 50, n_atoms = 5, is_polar = 0\<rparr>)"

text \<open>\<open>sample.update(props)\<close>.\<close>

definition update_props :: "mol_props \<Rightarrow> training_sample \<Rightarrow> training_sample" where
  "update_props p sample =
     sample\<lparr>row_molecular_weight := Some (molecular_weight p),
            row_n_atoms := Some (n_atoms p), row_is_polar := Some (is_polar p)\<rparr>"

definition compound_code :: "env \<Rightarrow> string \<Rightarrow> int" where
  "compound_code ev compound = hash ev compound mod 1000"

subsection \<open>\<open>process_for_training\<close>\<close>

definition dropna :: "thermo_rec list \<Rightarrow> thermo_rec list" where
  "dropna df = filter (\<lambda>r. \<not> is_nan (temperature r) \<and> \<not> is_nan (heat_capacity r)) df"

definition in_range :: "thermo_rec list \<Rightarrow> thermo_rec list" where
  "in_range df =
     filter (\<lambda>r. fge (temperature r) (Fin 200) \<and> fle (temperature r) (Fin 2000)) df"

definition real_sample :: "env \<Rightarrow> string \<Rightarrow> thermo_rec \<Rightarrow> training_sample" where
  "real_sample ev compound row =
     update_props (get_molecular_properties compound)
       \<lparr>row_compound = compound, row_compound_id = compound_code ev compound,
        row_temperature = temperature row, row_heat_capacity = heat_capacity row,
        row_entropy = entropy row, row_enthalpy_minus_h298 = enthalpy_minus_h298 row,
        row_molecular_weight = None, row_n_atoms = None, row_is_polar = None\<rparr>"

fun process_for_training ::
  "env \<Rightarrow> (string \<times> compound_result) list \<Rightarrow> exn + training_sample list" where
  "process_for_training ev [] = Inr []"
| "process_for_training ev ((compound, data) # rest) =
     (case thermodynamic_data data of
        NoData \<Rightarrow> process_for_training ev rest
      | PyList rows \<Rightarrow> Inl AttributeError
      | Frame df \<Rightarrow>
          (case process_for_training ev rest of
             Inl e \<Rightarrow> Inl e
           | Inr others \<Rightarrow> Inr (map (real_sample ev compound) (in_range (dropna df)) @ others)))"

subsection \<open>\<open>generate_synthetic_supplement\<close>\<close>

text \<open>\<open>np.linspace(start, stop, num)\<close>.\<close>

definition linspace :: "real \<Rightarrow> real \<Rightarrow> nat \<Rightarrow> real list" where
  "linspace start stop num =
     (if num = 0 then []
      else if num = 1 then [start]
      else map (\<lambda>i. start + real i * ((stop - start) / real (num - 1))) [0..<num - 1] @ [stop])"

text \<open>The built-in \<open>max(a, b)\<close> of two arguments: \<open>b\<close> if \<open>b > a\<close>, else \<open>a\<close>.\<close>

definition py_max :: "real \<Rightarrow> real \<Rightarrow> real" where
  "py_max a b = (if b > a then b else a)"

definition synthetic_compounds :: "string list" where
  "synthetic_compounds =
     [''H2O'', ''CO2'', ''CH4'', ''NH3'', ''C2H5OH'', ''N2'', ''O2'', ''C6H6'', ''C8H18'', ''NaCl'']"

definition synthetic_sample :: "env \<Rightarrow> nat \<Rightarrow> string \<Rightarrow> mol_props \<Rightarrow> real \<Rightarrow> training_sample" where
  "synthetic_sample ev k compound props temp =
     (let base_cp = 20 + real_of_int (n_atoms props) * 5;
          temp_effect = (1 / 100) * temp + (1 / 1000000) * temp ^ 2;
          cp = base_cp + temp_effect + random_normal ev k;
          ent = 150 + ln temp * 20 + real_of_int (n_atoms props) * 10 + random_normal ev (k + 1)
      in update_props props
           \<lparr>row_compound = compound, row_compound_id = compound_code ev compound,
            row_temperature = Fin temp, row_heat_capacity = Fin (py_max cp 10),
            row_entropy = Some (Fin (py_max ent 0)),
            row_enthalpy_minus_h298 = Some (Fin (random_normal ev (k + 2))),
            row_molecular_weight = None, row_n_atoms = None, row_is_polar = None\<rparr>)"

text \<open>The inner loop \<open>for temp in temps\<close>; each sample draws three random values.\<close>

fun synthetic_temps ::
  "env \<Rightarrow> string \<Rightarrow> mol_props \<Rightarrow> nat \<Rightarrow> real list \<Rightarrow> training_sample list \<times> nat" where
  "synthetic_temps ev compound props k [] = ([], k)"
| "synthetic_temps ev compound props k (temp # temps) =
     (let (rest, k') = synthetic_temps ev compound props (k + 3) temps
      in (synthetic_sample ev k compound props temp # rest, k'))"

fun synthetic_loop ::
  "env \<Rightarrow> nat \<Rightarrow> nat \<Rightarrow> string list \<Rightarrow> training_sample list \<times> nat" where
  "synthetic_loop ev samples_per_compound k [] = ([], k)"
| "synthetic_loop ev samples_per_compound k (compound # compounds) =
     (let (rows, k1) =
            synthetic_temps ev compound (get_molecular_properties compound) k
              (linspace 200 2000 samples_per_compound);
          (rest, k2) = synthetic_loop ev samples_per_compound k1 compounds
      in (rows @ rest, k2))"

definition samples_per_compound :: "int \<Rightarrow> nat" where
  "samples_per_compound existing_count =
     (let target_samples = max (100 - existing_count) 0
      in nat (max (target_samples div int (length synthetic_compounds)) 5))"

definition generate_synthetic_supplement ::
  "env \<Rightarrow> nat \<Rightarrow> int \<Rightarrow> training_sample list \<times> nat" where
  "generate_synthetic_supplement ev k existing_count =
     synthetic_loop ev (samples_per_compound existing_count) k synthetic_compounds"

section \<open>The orchestrator\<close>

definition target_compounds :: "string list" where
  "target_compounds =
     [''H2O'', ''water'', ''CO2'', ''carbon dioxide'', ''CH4'', ''methane'', ''NH3'', ''ammonia'',
      ''C2H5OH'', ''ethanol'', ''N2'', ''nitrogen'', ''O2'', ''oxygen'', ''C6H6'', ''benzene'',
      ''C8H18'', ''octane'', ''NaCl'', ''sodium chloride'', ''H2'', ''hydrogen'',
      ''CO'', ''carbon monoxide'', ''C2H4'', ''ethylene'', ''C3H8'', ''propane'',
      ''C2H6'', ''ethane'']"

fun collect_loop ::
  "env \<Rightarrow> string list \<Rightarrow> (string \<times> compound_result) list \<Rightarrow> (string \<times> compound_result) list" where
  "collect_loop ev [] raw_data = raw_data"
| "collect_loop ev (compound # rest) raw_data =
     (case scrape_compound_data ev compound of
        None \<Rightarrow> collect_loop ev rest raw_data
      | Some data \<Rightarrow>
          if thermodynamic_data data \<noteq> NoData
          then collect_loop ev rest (dict_set compound data raw_data)
          else collect_loop ev rest raw_data)"

definition supplement ::
  "env \<Rightarrow> world \<Rightarrow> training_sample list \<Rightarrow> training_sample list \<times> world" where
  "supplement ev w training_data =
     (if length training_data < 50 then
        (let (synthetic_data, k) =
               generate_synthetic_supplement ev (rng w) (int (length training_data))
         in (training_data @ synthetic_data, w\<lparr>rng := k\<rparr>))
      else (training_data, w))"

definition collect_hackathon_dataset ::
  "env \<Rightarrow> world \<Rightarrow> (exn + training_sample list) \<times> world" where
  "collect_hackathon_dataset ev w =
     (let raw_data = collect_loop ev target_compounds [] in
      case (if raw_data \<noteq> [] then save_data ev w raw_data ''hackathon_raw_data.json''
            else Inr w) of
        Inl e \<Rightarrow> (Inl e, w)
      | Inr w1 \<Rightarrow>
          (case process_for_training ev raw_data of
             Inl e \<Rightarrow> (Inl e, w1)
           | Inr training_data \<Rightarrow>
               (let (training_data', w2) = supplement ev w1 training_data in
                case write_file ev w2 ''hackathon_training_data.csv'' (CsvFile training_data') of
                  Inl e \<Rightarrow> (Inl e, w2)
                | Inr w3 \<Rightarrow> (Inr training_data', w3))))"

text \<open>
  The handler of \<open>main\<close>. Its \<open>to_csv\<close> is not inside any \<open>try\<close>: an exception there
  leaves \<open>main\<close>.
\<close>

definition emergency :: "env \<Rightarrow> world \<Rightarrow> (exn + training_sample list) \<times> world" where
  "emergency ev w =
     (let (data, k) = generate_synthetic_supplement ev (rng w) 0;
          w1 = w\<lparr>rng := k\<rparr>
      in case write_file ev w1 ''final_training_data.csv'' (CsvFile data) of
           Inl e \<Rightarrow> (Inl e, w1)
         | Inr w2 \<Rightarrow> (Inr data, w2))"

text \<open>
  \<open>main\<close>. In the \<open>try\<close> block the summary reads the columns \<open>compound\<close>,
  \<open>temperature\<close> and \<open>heat_capacity\<close>, which a table without rows does not have
  (\<open>KeyError\<close>), and then writes the table; every exception there runs the handler.
\<close>

definition main :: "env \<Rightarrow> world \<Rightarrow> (exn + training_sample list) \<times> world" where
  "main ev w =
     (case collect_hackathon_dataset ev w of
        (Inl e, w1) \<Rightarrow> emergency ev w1
      | (Inr data, w1) \<Rightarrow>
          if data = [] then emergency ev w1
          else
            (case write_file ev w1 ''final_training_data.csv'' (CsvFile data) of
               Inl e \<Rightarrow> emergency ev w1
             | Inr w2 \<Rightarrow> (Inr data, w2)))"

section \<open>Auxiliary notions\<close>

text \<open>
  The texts that one attempt of the number pattern can match: an optional sign, a
  mantissa and an optional exponent. \<open>plain\<close> characters are those that \<open>float\<close>
  leaves in place before it reads the number.
\<close>

definition opt_sign :: "string \<Rightarrow> bool" where
  "opt_sign sg = (sg = [] \<or> (\<exists>c. is_sign c \<and> sg = [c]))"

definition exp_shape :: "string \<Rightarrow> bool" where
  "exp_shape ex =
     (ex = [] \<or> (\<exists>c sg x. is_exp_mark c \<and> opt_sign sg \<and> x \<noteq> [] \<and> list_all is_digit x
                     \<and> ex = c # sg @ x))"

definition mant_shape :: "string \<Rightarrow> bool" where
  "mant_shape m =
     (\<exists>d f. list_all is_digit d \<and> list_all is_digit f
            \<and> ((m = d \<and> d \<noteq> []) \<or> (m = d @ CHR ''.'' # f \<and> f \<noteq> [])))"

definition plain :: "char \<Rightarrow> bool" where
  "plain c = (c \<noteq> CHR ''_'' \<and> \<not> c_isspace c \<and> \<not> 127 < code c)"

text \<open>The value that \<open>_parse_number\<close> returns for the stripped text of a cell.\<close>

definition cell_value :: "string \<Rightarrow> pyfloat option" where
  "cell_value cell = (case parse_number (strip cell) of Inl e \<Rightarrow> None | Inr v \<Rightarrow> v)"

text \<open>What every generated sample satisfies.\<close>

definition synthetic_row :: "string \<Rightarrow> real \<Rightarrow> training_sample \<Rightarrow> bool" where
  "synthetic_row compound temp r =
     (row_compound r = compound \<and> row_temperature r = Fin temp
      \<and> (\<exists>x. row_heat_capacity r = Fin x \<and> 10 \<le> x)
      \<and> (\<exists>y. row_entropy r = Some (Fin y) \<and> 0 \<le> y)
      \<and> row_molecular_weight r \<noteq> None \<and> row_n_atoms r \<noteq> None \<and> row_is_polar r \<noteq> None)"

text \<open>
  An environment without network: no compound is found and no page is served; every
  file can be written, the random draws are all 0 and so is every hash.
\<close>

definition offline_env :: env where
  "offline_env =
     \<lparr>search_compound = (\<lambda>name. None), thermo_page = (\<lambda>cid. Inl OSError),
      phase_page = (\<lambda>cid. Inl OSError), writable = (\<lambda>filename. True),
      random_normal = (\<lambda>k. 0), hash = (\<lambda>name. 0)\<rparr>"

text \<open>
  What every result of \<open>scrape_compound_data\<close> satisfies: its thermodynamic data is
  \<open>None\<close> or a data frame with at least one row, each with a heat capacity above 0.
\<close>

definition good_result :: "compound_result \<Rightarrow> bool" where
  "good_result d =
     (case thermodynamic_data d of
        NoData \<Rightarrow> True
      | Frame rows \<Rightarrow> rows \<noteq> [] \<and> list_all (\<lambda>r. fgt (heat_capacity r) (Fin 0)) rows
      | PyList rows \<Rightarrow> False)"

text \<open>A row of the training table as the pipeline makes them.\<close>

definition valid_row :: "training_sample \<Rightarrow> bool" where
  "valid_row r =
     (fge (row_temperature r) (Fin 200) \<and> fle (row_temperature r) (Fin 2000)
      \<and> fgt (row_heat_capacity r) (Fin 0)
      \<and> row_molecular_weight r \<noteq> None \<and> row_n_atoms r \<noteq> None \<and> row_is_polar r \<noteq> None)"

text \<open>The state before the program has run.\<close>

definition world0 :: world where
  "world0 = \<lparr>files = (\<lambda>filename. None), rng = 0\<rparr>"

text \<open>
  An environment in which the site knows \<open>H2O\<close> only and serves one table of two
  rows for it, and what the program makes of it: the raw results and the one sample
  within \<open>[200, 2000]\<close>.
\<close>

definition demo_table :: html_table where
  "demo_table =
     \<lparr>th_cells = [''T (K)'', ''Cp''],
      tr_rows = [[], [''300'', ''33.6''], [''3000'', ''55.7'']]\<rparr>"

definition demo_env :: env where
  "demo_env =
     \<lparr>search_compound = (\<lambda>name. if name = ''H2O'' then Some ''C7732185'' else None),
      thermo_page = (\<lambda>cid. Inr [demo_table]),
      phase_page = (\<lambda>cid. Inl OSError), writable = (\<lambda>filename. True),
      random_normal = (\<lambda>k. 0), hash = (\<lambda>name. 0)\<rparr>"

definition demo_rows :: "thermo_rec list" where
  "demo_rows =
     [\<lparr>temperature = Fin 300, heat_capacity = Fin (336 / 10), entropy = None,
       enthalpy_minus_h298 = None, gibbs_free_energy = None\<rparr>,
      \<lparr>temperature = Fin 3000, heat_capacity = Fin (557 / 10), entropy = None,
       enthalpy_minus_h298 = None, gibbs_free_energy = None\<rparr>]"

definition demo_raw :: "(string \<times> compound_result) list" where
  "demo_raw =
     [(''H2O'', \<lparr>formula = ''H2O'', compound_id = ''C7732185'',
                 thermodynamic_data = Frame demo_rows, phase_change_data = no_phase_data\<rparr>)]"

definition demo_sample :: training_sample where
  "demo_sample =
     \<lparr>row_compound = ''H2O'', row_compound_id = 0, row_temperature = Fin 300,
      row_heat_capacity = Fin (336 / 10), row_entropy = None, row_enthalpy_minus_h298 = None,
      row_molecular_weight = Some (18015 / 1000), row_n_atoms = Some 3, row_is_polar = Some 1\<rparr>"

text \<open>
  Two environments without network: one in which no file can be written, and one in
  which only \<open>final_training_data.csv\<close> can.
\<close>

definition readonly_env :: env where
  "readonly_env = offline_env\<lparr>writable := (\<lambda>filename. False)\<rparr>"

definition final_only_env :: env where
  "final_only_env = offline_env\<lparr>writable := (\<lambda>filename. filename = ''final_training_data.csv'')\<rparr>"


text \<open>Reading a decimal numeral back.\<close>

definition read_nat :: "string \<Rightarrow> nat" where
  "read_nat s = foldl (\<lambda>a c. 10 * a + (of_char c - 48)) 0 s"

text \<open>The results of the loop of \<open>scrape_multiple_compounds\<close>, without its files.\<close>

fun scrape_results ::
  "env \<Rightarrow> string list \<Rightarrow> (string \<times> compound_result) list \<Rightarrow> (string \<times> compound_result) list" where
  "scrape_results ev [] results = results"
| "scrape_results ev (compound # rest) results =
     (case scrape_compound_data ev compound of
        None \<Rightarrow> scrape_results ev rest results
      | Some data \<Rightarrow> scrape_results ev rest (dict_set compound data results))"

declare show_nat.simps [simp del]

section \<open>Properties of the numeric extractor\<close>

subsection \<open>Every match of the number pattern is accepted by \<open>float\<close>\<close>

lemma takeWhile_run:
  "list_all P d \<Longrightarrow> r = [] \<or> \<not> P (hd r) \<Longrightarrow> takeWhile P (d @ r) = d"
  by (induction d) (cases r; auto)+

lemma dropWhile_run:
  "list_all P d \<Longrightarrow> r = [] \<or> \<not> P (hd r) \<Longrightarrow> dropWhile P (d @ r) = r"
  by (induction d) (cases r; auto)+

lemma list_all_takeWhile: "list_all P (takeWhile P s)"
  by (induction s) auto

lemma digit_facts:
  assumes "is_digit c"
  shows "\<not> is_sign c" "c \<noteq> CHR ''.''" "\<not> is_exp_mark c" "c \<noteq> CHR ''_''" "\<not> c_isspace c"
    "\<not> 127 < code c" "\<not> (65 \<le> code c \<and> code c \<le> 90)"
  using assms by (auto simp: is_digit_def is_sign_def is_exp_mark_def c_isspace_def code_def)

lemma match_sign_shape: "match_sign s = (sg, r) \<Longrightarrow> opt_sign sg \<and> s = sg @ r"
  by (auto simp: match_sign_def opt_sign_def split: list.splits if_splits)

lemma match_exponent_shape: "exp_shape (match_exponent s)"
proof (cases s)
  case Nil
  then show ?thesis by (simp add: match_exponent_def exp_shape_def)
next
  case (Cons c r)
  obtain sg r' where ms: "match_sign r = (sg, r')" by (cases "match_sign r")
  then have "opt_sign sg" using match_sign_shape by blast
  then show ?thesis
    using Cons ms list_all_takeWhile [of is_digit r']
    by (auto simp: match_exponent_def exp_shape_def Let_def)
qed

lemma match_mantissa_shape: "match_mantissa s = Some (m, r) \<Longrightarrow> mant_shape m"
  unfolding match_mantissa_def mant_shape_def Let_def
  using list_all_takeWhile [of is_digit]
  by (fastforce split: list.splits if_splits)

lemma match_here_shape:
  assumes "match_here s = Some m"
  shows "\<exists>sg mt ex. m = sg @ mt @ ex \<and> opt_sign sg \<and> mant_shape mt \<and> exp_shape ex"
proof -
  obtain sg r where ms: "match_sign s = (sg, r)" by (cases "match_sign s")
  with assms obtain mt r' where mm: "match_mantissa r = Some (mt, r')"
    and m: "m = sg @ mt @ match_exponent r'"
    by (auto simp: match_here_def split: option.splits)
  show ?thesis
    using m match_sign_shape [OF ms] match_mantissa_shape [OF mm] match_exponent_shape [of r']
    by blast
qed

lemma sign_facts:
  assumes "is_sign c"
  shows "\<not> is_digit c" "c \<noteq> CHR ''.''" "\<not> is_exp_mark c" "c \<noteq> CHR ''_''" "\<not> c_isspace c"
    "\<not> 127 < code c"
  using assms by (auto simp: is_digit_def is_sign_def is_exp_mark_def c_isspace_def code_def)

lemma exp_mark_facts:
  assumes "is_exp_mark c"
  shows "\<not> is_digit c" "c \<noteq> CHR ''.''" "\<not> is_sign c" "c \<noteq> CHR ''_''" "\<not> c_isspace c"
    "\<not> 127 < code c"
  using assms by (auto simp: is_digit_def is_sign_def is_exp_mark_def c_isspace_def code_def)

lemma point_facts:
  "\<not> is_digit (CHR ''.'')" "\<not> is_sign (CHR ''.'')" "\<not> is_exp_mark (CHR ''.'')"
  "\<not> c_isspace (CHR ''.'')" "\<not> 127 < code (CHR ''.'')"
  by (auto simp: is_digit_def is_sign_def is_exp_mark_def c_isspace_def code_def)

lemma plain_digit: "is_digit c \<Longrightarrow> plain c"
  and plain_sign: "is_sign c \<Longrightarrow> plain c"
  and plain_exp_mark: "is_exp_mark c \<Longrightarrow> plain c"
  and plain_point: "plain (CHR ''.'')"
  by (auto simp: plain_def is_digit_def is_sign_def is_exp_mark_def c_isspace_def code_def)

lemma plain_digits: "list_all is_digit d \<Longrightarrow> list_all plain d"
  by (induction d) (auto simp: plain_digit)

lemma plain_opt_sign: "opt_sign sg \<Longrightarrow> list_all plain sg"
  by (auto simp: opt_sign_def plain_sign)

lemma plain_exp_shape: "exp_shape ex \<Longrightarrow> list_all plain ex"
  by (auto simp: exp_shape_def plain_exp_mark plain_opt_sign plain_digits)

lemma plain_mant_shape: "mant_shape m \<Longrightarrow> list_all plain m"
  by (auto simp: mant_shape_def plain_point plain_digits)

lemma to_ascii_plain: "list_all plain s \<Longrightarrow> to_ascii s = s"
  by (induction s) (auto simp: to_ascii_def plain_def)

lemma underscores_ok_plain:
  "list_all plain s \<Longrightarrow> p \<noteq> CHR ''_'' \<Longrightarrow> underscores_ok p s"
  by (induction s arbitrary: p) (auto simp: plain_def)

lemma filter_plain: "list_all plain s \<Longrightarrow> filter (\<lambda>c. c \<noteq> CHR ''_'') s = s"
  by (induction s) (auto simp: plain_def)

lemma dropWhile_none: "list_all (\<lambda>c. \<not> P c) s \<Longrightarrow> dropWhile P s = s"
  by (cases s) auto

lemma c_strip_plain: "list_all plain s \<Longrightarrow> c_strip s = s"
proof -
  assume a: "list_all plain s"
  then have n: "list_all (\<lambda>c. \<not> c_isspace c) s"
    by (induction s) (auto simp: plain_def)
  then have "list_all (\<lambda>c. \<not> c_isspace c) (rev s)"
    by (simp add: list_all_iff)
  then show ?thesis using n by (simp add: c_strip_def dropWhile_none)
qed

lemma py_float_plain: "list_all plain s \<Longrightarrow> py_float s = float_body s"
  by (simp add: py_float_def to_ascii_plain underscores_ok_plain filter_plain c_strip_plain)

lemma parse_exponent_shape: "exp_shape ex \<Longrightarrow> \<exists>e. parse_exponent ex = Some e"
  unfolding exp_shape_def opt_sign_def parse_exponent_def split_sign_def
  by (auto simp: digit_facts neq_Nil_conv)

lemma exp_shape_hd: "exp_shape ex \<Longrightarrow> ex = [] \<or> \<not> is_digit (hd ex)"
  by (auto simp: exp_shape_def exp_mark_facts)

lemma exp_shape_not_point: "exp_shape ex \<Longrightarrow> ex = [] \<or> hd ex \<noteq> CHR ''.''"
  by (auto simp: exp_shape_def exp_mark_facts)

lemma parse_decimal_shape:
  assumes "mant_shape m" and "exp_shape ex"
  shows "\<exists>v. parse_decimal (m @ ex) = Some v"
proof -
  obtain e where e: "parse_exponent ex = Some e"
    using parse_exponent_shape [OF assms(2)] by blast
  from assms(1) obtain d f where d: "list_all is_digit d" and f: "list_all is_digit f"
    and m: "(m = d \<and> d \<noteq> []) \<or> (m = d @ CHR ''.'' # f \<and> f \<noteq> [])"
    by (auto simp: mant_shape_def)
  from m show ?thesis
  proof
    assume md: "m = d \<and> d \<noteq> []"
    have t: "takeWhile is_digit (d @ ex) = d" and r: "dropWhile is_digit (d @ ex) = ex"
      using d exp_shape_hd [OF assms(2)] by (simp_all add: takeWhile_run dropWhile_run)
    show ?thesis
      using md t r e exp_shape_not_point [OF assms(2)]
      by (cases ex) (auto simp: parse_decimal_def Let_def list_all_iff
          takeWhile_eq_all_conv [THEN iffD2] dropWhile_eq_Nil_conv [THEN iffD2])
  next
    assume mf: "m = d @ CHR ''.'' # f \<and> f \<noteq> []"
    have t: "takeWhile is_digit (d @ CHR ''.'' # f @ ex) = d"
      and r: "dropWhile is_digit (d @ CHR ''.'' # f @ ex) = CHR ''.'' # f @ ex"
      using d by (simp_all add: takeWhile_run dropWhile_run point_facts)
    have t2: "takeWhile is_digit (f @ ex) = f" and r2: "dropWhile is_digit (f @ ex) = ex"
      using f exp_shape_hd [OF assms(2)] by (simp_all add: takeWhile_run dropWhile_run)
    show ?thesis
      using mf t r t2 r2 e by (simp add: parse_decimal_def Let_def)
  qed
qed

lemma mant_shape_hd: "mant_shape m \<Longrightarrow> m \<noteq> [] \<and> (is_digit (hd m) \<or> hd m = CHR ''.'')"
proof -
  assume "mant_shape m"
  then obtain d f where d: "list_all is_digit d"
    and m: "(m = d \<and> d \<noteq> []) \<or> (m = d @ CHR ''.'' # f \<and> f \<noteq> [])"
    by (auto simp: mant_shape_def)
  then show ?thesis by (cases d) auto
qed

lemma split_sign_shape:
  assumes "opt_sign sg" and "mant_shape m"
  shows "\<exists>neg. split_sign (sg @ m @ ex) = (neg, m @ ex)"
  using assms(1) mant_shape_hd [OF assms(2)]
  by (cases m) (auto simp: opt_sign_def split_sign_def digit_facts point_facts)

lemma not_special:
  assumes "mant_shape m"
  shows "ascii_lower (m @ ex) \<noteq> ''inf''" "ascii_lower (m @ ex) \<noteq> ''infinity''"
    "ascii_lower (m @ ex) \<noteq> ''nan''"
  using mant_shape_hd [OF assms]
  by (cases m; auto simp: ascii_lower_def is_digit_def code_def)+

lemma float_body_shape:
  assumes "opt_sign sg" and "mant_shape m" and "exp_shape ex"
  shows "\<exists>x. float_body (sg @ m @ ex) = Some x"
proof -
  obtain neg where s: "split_sign (sg @ m @ ex) = (neg, m @ ex)"
    using split_sign_shape [OF assms(1,2)] by blast
  obtain v where v: "parse_decimal (m @ ex) = Some v"
    using parse_decimal_shape [OF assms(2,3)] by blast
  show ?thesis
    using s v not_special [OF assms(2), of ex] by (simp add: float_body_def)
qed

lemma py_float_match_here:
  assumes "match_here s = Some m"
  shows "\<exists>x. py_float m = Some x"
proof -
  obtain sg mt ex where m: "m = sg @ mt @ ex" and sh: "opt_sign sg" "mant_shape mt" "exp_shape ex"
    using match_here_shape [OF assms] by blast
  have "list_all plain m"
    using m sh by (simp add: plain_opt_sign plain_mant_shape plain_exp_shape)
  then show ?thesis
    using m float_body_shape [OF sh] by (simp add: py_float_plain)
qed

lemma first_number_match: "first_number s = Some m \<Longrightarrow> \<exists>t. match_here t = Some m"
  by (induction s) (auto split: option.splits)

lemma parse_number_total: "\<exists>r. parse_number text = Inr r"
proof (cases "first_number (strip text)")
  case None
  then show ?thesis by (simp add: parse_number_def Let_def split: option.splits)
next
  case (Some m)
  then obtain x where "py_float m = Some x"
    using first_number_match py_float_match_here by blast
  with Some show ?thesis by (simp add: parse_number_def Let_def split: option.splits)
qed

text \<open>
  \<open>_parse_number\<close> never raises: the text that the fallback hands to \<open>float\<close> is a
  match of the number pattern, which \<open>float\<close> accepts.
\<close>

lemma parse_number_never_raises: "parse_number t \<noteq> Inl e"
  using parse_number_total [of t] by auto

lemma parse_number_empty: "parse_number [] = Inr None"
  by (simp add: parse_number_def)

lemma parse_number_dash: "parse_number ''-'' = Inr None"
  by (simp add: parse_number_def)

lemma dropWhile_all: "list_all P s \<Longrightarrow> dropWhile P s = []"
  by (induction s) auto

lemma parse_number_blank:
  assumes "list_all py_isspace t"
  shows "parse_number t = Inr None"
proof -
  have d: "dropWhile py_isspace t = []"
    using assms by (rule dropWhile_all)
  have "strip t = []"
    unfolding strip_def d by simp
  then show ?thesis
    by (simp add: parse_number_def clean_def split_first_def py_float_def to_ascii_def
        c_strip_def float_body_def split_sign_def ascii_lower_def parse_decimal_def)
qed

subsection \<open>Evaluation on concrete texts\<close>

lemma char_of_nat_eq: "(char_of (n::nat) = c) = (n mod 256 = of_char c)"
  by (metis char_of_char of_char_of)

lemmas text_eval =
  strip_def py_isspace_def code_def is_digit_def times_sign_def plus_minus_def degree_sign_def
  lower_def lower_char_def char_of_nat_eq Let_def

lemmas float_eval =
  py_float_def to_ascii_def c_strip_def c_isspace_def float_body_def split_sign_def is_sign_def
  ascii_lower_def parse_decimal_def parse_exponent_def is_exp_mark_def digits_val_def pow10_def

lemmas number_eval =
  parse_number_def clean_def keep_char_def split_first_def match_here_def match_sign_def
  match_mantissa_def match_exponent_def text_eval float_eval

subsection \<open>The claims about the numeric extractor\<close>

text \<open>
  Claim C3: for a text that contains the plus-minus sign, the extractor returns the value
  of the part before that sign; \<open>extract("298 \<plusminus> 2")\<close> is 298. The code removes the
  plus-minus sign while it cleans the text and only then splits the cleaned text at that
  sign, so nothing is cut off: on \<open>298 \<plusminus> 2\<close> the digits of the uncertainty are appended
  to those of the value and the result is 2982.
\<close>

theorem parse_number_plus_minus_2982:
  "parse_number (''298 '' @ [plus_minus] @ '' 2'') = Inr (Some (Fin 2982))"
  by (simp add: number_eval)

text \<open>
  Claim C4: the multiplication sign is mapped to \<open>e\<close>, so that
  \<open>extract("1.2\<times>10^-3")\<close> is the value of \<open>1.2e-3\<close>. The cleaned text of that input
  is \<open>1.2e10^-3\<close> (the caret lies in the range \<open>+\<close> to \<open>e\<close> and is kept), which
  \<open>float\<close> rejects; the fallback then finds \<open>1.2\<close> in the original text, and the result
  is 1.2.
\<close>

theorem parse_number_times_ten_power:
  "clean (''1.2'' @ [times_sign] @ ''10^-3'') = ''1.2e10^-3''
   \<and> py_float ''1.2e10^-3'' = None
   \<and> parse_number (''1.2'' @ [times_sign] @ ''10^-3'') = Inr (Some (Fin (12 / 10)))"
  by (simp add: number_eval)

text \<open>
  Claim C5: the extractor never raises, returns no value on the empty string, on \<open>-\<close>
  and on blank input, and returns no value on an input without a numeric substring. The
  first three parts hold (\<open>parse_number_never_raises\<close>, \<open>parse_number_empty\<close>,
  \<open>parse_number_dash\<close>, \<open>parse_number_blank\<close>). The last one does not: the text
  \<open>INF\<close> has no substring that the number pattern matches, its capital letters lie in
  the range \<open>+\<close> to \<open>e\<close> and survive the cleaning, and \<open>float("INF")\<close> is infinity.
\<close>

theorem parse_number_INF:
  "first_number (strip ''INF'') = None \<and> parse_number ''INF'' = Inr (Some PInf)"
  by (simp add: number_eval)

section \<open>Properties of the table parser\<close>

lemma parse_number_cell: "parse_number (strip cell) = Inr (cell_value cell)"
  using parse_number_total [of "strip cell"] by (auto simp: cell_value_def)

lemma scan_cells_total: "\<exists>acc'. scan_cells i cells acc = Inr acc'"
proof (induction cells arbitrary: i acc)
  case Nil
  then show ?case by (cases acc) auto
next
  case (Cons cell cells)
  obtain cp ent enth gibbs where acc: "acc = (cp, ent, enth, gibbs)"
    by (cases acc) auto
  show ?case
    unfolding acc using Cons.IH
    by (cases "cell_value cell") (simp_all add: parse_number_cell)
qed

lemma scan_cells_keeps_cp:
  "2 \<le> i \<Longrightarrow> scan_cells i cells (cp, ent, enth, gibbs) = Inr (cp', ent', enth', gibbs')
   \<Longrightarrow> cp' = cp"
proof (induction cells arbitrary: i ent enth gibbs)
  case Nil
  then show ?case by simp
next
  case (Cons cell cells)
  have i: "2 \<le> Suc i" "i \<noteq> 1" using Cons.prems(1) by auto
  show ?case
  proof (cases "cell_value cell")
    case None
    then show ?thesis
      using Cons.prems(2) Cons.IH [OF i(1)] by (simp add: parse_number_cell)
  next
    case (Some v)
    then show ?thesis
      using Cons.prems(2) Cons.IH [OF i(1)] i(2)
      by (simp add: parse_number_cell split: if_splits)
  qed
qed

lemma scan_cells_cp:
  assumes "scan_cells 1 (cell # cells) (None, None, None, None) = Inr (cp, ent, enth, gibbs)"
  shows "cp = cell_value cell"
proof (cases "cell_value cell")
  case None
  then show ?thesis
    using assms scan_cells_keeps_cp [of "Suc 1" cells None None None None cp ent enth gibbs]
    by (simp add: parse_number_cell)
next
  case (Some v)
  then show ?thesis
    using assms scan_cells_keeps_cp [of "Suc 1" cells "Some v" None None None cp ent enth gibbs]
    by (simp add: parse_number_cell)
qed

text \<open>A row with at least two cells is accepted exactly when its first cell yields a
  value that is neither below 50 nor above 5000 and its second cell a value above 0.\<close>

lemma parse_row_accepts:
  "(parse_row cells \<noteq> None) =
     (2 \<le> length cells
      \<and> (\<exists>t. cell_value (hd cells) = Some t \<and> \<not> flt t (Fin 50) \<and> \<not> fgt t (Fin 5000))
      \<and> (\<exists>c. cell_value (cells ! 1) = Some c \<and> fgt c (Fin 0)))"
proof (cases "2 \<le> length cells")
  case False
  then show ?thesis by (simp add: parse_row_def)
next
  case True
  then obtain c0 c1 rest where cells: "cells = c0 # c1 # rest"
    by (cases cells; cases "tl cells") auto
  obtain cp ent enth gibbs
    where sc: "scan_cells 1 (c1 # rest) (None, None, None, None) = Inr (cp, ent, enth, gibbs)"
    using scan_cells_total [of 1 "c1 # rest" "(None, None, None, None)"] by auto
  have cp: "cp = cell_value c1" using scan_cells_cp [OF sc] .
  show ?thesis
    unfolding cells parse_row_def using sc cp
    by (auto simp: parse_number_cell split: option.splits)
qed

lemma not_nan_range:
  "t \<noteq> NaN \<Longrightarrow> (\<not> flt t (Fin 50) \<and> \<not> fgt t (Fin 5000)) = (fge t (Fin 50) \<and> fle t (Fin 5000))"
  by (cases t) (auto simp: fgt_def fge_def fle_def)

lemma nan_range: "\<not> flt NaN (Fin 50) \<and> \<not> fgt NaN (Fin 5000) \<and> \<not> fge NaN (Fin 50)"
  by (simp add: fgt_def fge_def fle_def)

lemma parse_row_heat_capacity: "parse_row cells = Some r \<Longrightarrow> fgt (heat_capacity r) (Fin 0)"
  by (auto simp: parse_row_def split: if_splits sum.splits option.splits)

lemma parse_rows_heat_capacity: "r \<in> set (parse_rows rows) \<Longrightarrow> fgt (heat_capacity r) (Fin 0)"
  by (induction rows) (auto split: option.splits dest: parse_row_heat_capacity)

lemma parse_table_no_keyword: "\<not> header_matches t \<Longrightarrow> parse_table t = []"
  by (simp add: parse_table_def)

lemma parse_table_heat_capacity: "r \<in> set (parse_table t) \<Longrightarrow> fgt (heat_capacity r) (Fin 0)"
  by (auto simp: parse_table_def split: if_splits dest: parse_rows_heat_capacity)

lemma parse_thermodynamic_tables_rows:
  assumes "parse_thermodynamic_tables tables = Some rows"
  shows "rows \<noteq> [] \<and> (\<forall>r\<in>set rows. fgt (heat_capacity r) (Fin 0))"
  using assms
  by (auto simp: parse_thermodynamic_tables_def Let_def split: if_splits
      dest: parse_table_heat_capacity)

lemmas table_eval =
  parse_thermodynamic_tables_def parse_table_def header_matches_def thermo_keywords_def
  parse_row_def fgt_def number_eval

text \<open>
  Claim C2: in a table whose header text contains a keyword, a row with at least two cells
  yields a record if and only if its first cell parses to a temperature within
  \<open>[50, 5000]\<close> and its second cell to a heat capacity above 0; tables whose header
  matches no keyword yield nothing. The code rejects a row when \<open>temp < 50 or temp > 5000\<close>
  (\<open>parse_row_accepts\<close>), which agrees with the claim on every temperature but a NaN
  (\<open>not_nan_range\<close>), and a table without keyword yields nothing
  (\<open>parse_table_no_keyword\<close>). A NaN is neither below 50 nor above 5000, and a cell
  that reads \<open>NaN\<close> reaches \<open>float\<close> unchanged (its letters lie in the range \<open>+\<close> to
  \<open>e\<close> of the character class): the row \<open>NaN | 35.5\<close> is accepted with a temperature
  that is not within \<open>[50, 5000]\<close>.
\<close>

theorem parse_thermodynamic_tables_NaN_row:
  "parse_thermodynamic_tables
     [\<lparr>th_cells = [''T'', ''Cp''], tr_rows = [[], [''NaN'', ''35.5'']]\<rparr>]
   = Some [\<lparr>temperature = NaN, heat_capacity = Fin (355 / 10), entropy = None,
            enthalpy_minus_h298 = None, gibbs_free_energy = None\<rparr>]"
  by (simp add: table_eval)

subsection \<open>The phase-change parser\<close>

lemmas phase_eval =
  phase_row_def classify_def no_phase_data_def contains.simps starts_with.simps number_eval

text \<open>
  The body of the row loop: a label with \<open>temperature\<close> or \<open>point\<close> is handled by
  the first test of its branch, before the test for \<open>enthalpy\<close>.
\<close>

lemma phase_row_point_before_enthalpy:
  assumes "2 \<le> length cells"
    and "parse_number (strip (cells ! 1)) = Inr (Some v)"
    and "contains (lower (strip (cells ! 0))) ''temperature''
         \<or> contains (lower (strip (cells ! 0))) ''point''"
  shows "(contains (lower (strip (cells ! 0))) ''boiling''
          \<or> contains (lower (strip (cells ! 0))) ''vaporization''
          \<longrightarrow> phase_row pd cells = Inr (pd\<lparr>boiling_point_K := Some v\<rparr>))
       \<and> (\<not> (contains (lower (strip (cells ! 0))) ''boiling''
              \<or> contains (lower (strip (cells ! 0))) ''vaporization'')
          \<and> (contains (lower (strip (cells ! 0))) ''melting''
              \<or> contains (lower (strip (cells ! 0))) ''fusion'')
          \<longrightarrow> phase_row pd cells = Inr (pd\<lparr>melting_point_K := Some v\<rparr>))
       \<and> (\<exists>pd'. phase_row pd cells = Inr pd'
              \<and> heat_of_vaporization pd' = heat_of_vaporization pd
              \<and> heat_of_fusion pd' = heat_of_fusion pd)"
  using assms by (auto simp: phase_row_def classify_def Let_def)

lemma phase_row_total: "\<exists>pd'. phase_row pd cells = Inr pd'"
  using parse_number_total [of "strip (cells ! 1)"]
  by (auto simp: phase_row_def Let_def split: option.splits)

lemma phase_rows_total: "\<exists>pd'. phase_rows pd rows = Inr pd'"
proof (induction rows arbitrary: pd)
  case Nil
  then show ?case by simp
next
  case (Cons row rows)
  obtain pd1 where "phase_row pd row = Inr pd1" using phase_row_total by blast
  then show ?case using Cons [of pd1] by simp
qed

lemma phase_rows_snoc:
  "phase_rows pd rows = Inr pd' \<Longrightarrow> phase_rows pd (rows @ [cells]) = phase_row pd' cells"
proof (induction rows arbitrary: pd)
  case Nil
  then show ?case by (cases "phase_row pd cells") simp_all
next
  case (Cons row rows)
  then show ?case by (cases "phase_row pd row") simp_all
qed

lemma phase_tables_total: "\<exists>pd'. phase_tables pd tables = Inr pd'"
proof (induction tables arbitrary: pd)
  case Nil
  then show ?case by simp
next
  case (Cons t tables)
  obtain pd1 where "phase_rows pd (tr_rows t) = Inr pd1" using phase_rows_total by blast
  then show ?case using Cons [of pd1] by simp
qed

lemma phase_tables_snoc:
  "phase_tables pd (tables @ [t])
   = (case phase_tables pd tables of Inl e \<Rightarrow> Inl e | Inr pd' \<Rightarrow> phase_rows pd' (tr_rows t))"
proof (induction tables arbitrary: pd)
  case Nil
  then show ?case by (cases "phase_rows pd (tr_rows t)") simp_all
next
  case (Cons t' tables)
  then show ?case by (cases "phase_rows pd (tr_rows t')") simp_all
qed

lemma parse_phase_change_data_total: "\<exists>pd. parse_phase_change_data tables = Inr pd"
  by (simp add: parse_phase_change_data_def phase_tables_total)

lemma parse_phase_change_data_snoc:
  assumes "parse_phase_change_data (tables @ [\<lparr>th_cells = ths, tr_rows = rows\<rparr>]) = Inr pd"
  shows "parse_phase_change_data (tables @ [\<lparr>th_cells = ths, tr_rows = rows @ [cells]\<rparr>])
         = phase_row pd cells"
proof -
  obtain pd0 where pd0: "phase_tables no_phase_data tables = Inr pd0"
    using phase_tables_total by blast
  then have "phase_rows pd0 rows = Inr pd"
    using assms by (simp add: parse_phase_change_data_def phase_tables_snoc)
  then show ?thesis
    using pd0 by (simp add: parse_phase_change_data_def phase_tables_snoc phase_rows_snoc)
qed

text \<open>
  Claim C10, as the code has it: a row whose value parses and whose label contains
  \<open>temperature\<close> or \<open>point\<close>, with or without \<open>enthalpy\<close>, changes the result of the
  parser as follows. If the label contains \<open>boiling\<close> or \<open>vaporization\<close>, the value is
  stored under \<open>boiling_point_K\<close>; if it contains neither of them and contains
  \<open>melting\<close> or \<open>fusion\<close>, the value is stored under \<open>melting_point_K\<close>; in every
  case \<open>heat_of_vaporization\<close> and \<open>heat_of_fusion\<close> stay as the rows before left
  them. The row is the last one of the document, after any tables and rows.
\<close>

theorem parse_phase_change_data_point_before_enthalpy:
  assumes "2 \<le> length cells"
    and "parse_number (strip (cells ! 1)) = Inr (Some v)"
    and "contains (lower (strip (cells ! 0))) ''temperature''
         \<or> contains (lower (strip (cells ! 0))) ''point''"
  shows "\<exists>pd. parse_phase_change_data (tables @ [\<lparr>th_cells = ths, tr_rows = rows\<rparr>]) = Inr pd
           \<and> (contains (lower (strip (cells ! 0))) ''boiling''
               \<or> contains (lower (strip (cells ! 0))) ''vaporization''
               \<longrightarrow> parse_phase_change_data
                     (tables @ [\<lparr>th_cells = ths, tr_rows = rows @ [cells]\<rparr>])
                   = Inr (pd\<lparr>boiling_point_K := Some v\<rparr>))
           \<and> (\<not> (contains (lower (strip (cells ! 0))) ''boiling''
                   \<or> contains (lower (strip (cells ! 0))) ''vaporization'')
               \<and> (contains (lower (strip (cells ! 0))) ''melting''
                   \<or> contains (lower (strip (cells ! 0))) ''fusion'')
               \<longrightarrow> parse_phase_change_data
                     (tables @ [\<lparr>th_cells = ths, tr_rows = rows @ [cells]\<rparr>])
                   = Inr (pd\<lparr>melting_point_K := Some v\<rparr>))
           \<and> (\<exists>pd'. parse_phase_change_data
                       (tables @ [\<lparr>th_cells = ths, tr_rows = rows @ [cells]\<rparr>]) = Inr pd'
                  \<and> heat_of_vaporization pd' = heat_of_vaporization pd
                  \<and> heat_of_fusion pd' = heat_of_fusion pd)"
proof -
  obtain pd where pd: "parse_phase_change_data (tables @ [\<lparr>th_cells = ths, tr_rows = rows\<rparr>])
                       = Inr pd"
    using parse_phase_change_data_total by blast
  show ?thesis
    using phase_row_point_before_enthalpy [OF assms, of pd] pd
    unfolding parse_phase_change_data_snoc [OF pd] by blast
qed

lemma number_37315: "parse_number (strip ''373.15'') = Inr (Some (Fin (37315 / 100)))"
  by (simp add: number_eval)

lemma number_27315: "parse_number (strip ''273.15 K'') = Inr (Some (Fin (27315 / 100)))"
  by (simp add: number_eval)

lemma label_boiling:
  "lower (strip ''Enthalpy at boiling point'') = ''enthalpy at boiling point''"
  by (simp add: text_eval)

lemma label_melting:
  "lower (strip ''Enthalpy (melting temperature)'') = ''enthalpy (melting temperature)''"
  by (simp add: text_eval)

lemma vaporization_table:
  "parse_phase_change_data
     [\<lparr>th_cells = [], tr_rows = [[''Enthalpy of vaporization'', ''40.65'']]\<rparr>]
   = Inr (no_phase_data\<lparr>heat_of_vaporization := Some (Fin (4065 / 100))\<rparr>)"
  by (simp add: parse_phase_change_data_def phase_eval)

lemma empty_table:
  "parse_phase_change_data [\<lparr>th_cells = [], tr_rows = []\<rparr>] = Inr no_phase_data"
  by (simp add: parse_phase_change_data_def)

text \<open>
  After a row that gives the enthalpy of vaporization, the row \<open>Enthalpy at boiling
  point\<close> sets the boiling point and leaves that enthalpy; the row \<open>Enthalpy (melting
  temperature)\<close> sets the melting point.
\<close>

theorem parse_phase_change_data_point_before_enthalpy_witness:
  "parse_phase_change_data
     [\<lparr>th_cells = [],
       tr_rows = [[''Enthalpy of vaporization'', ''40.65''],
                  [''Enthalpy at boiling point'', ''373.15'']]\<rparr>]
   = Inr (no_phase_data\<lparr>heat_of_vaporization := Some (Fin (4065 / 100)),
                         boiling_point_K := Some (Fin (37315 / 100))\<rparr>)
   \<and> parse_phase_change_data
       [\<lparr>th_cells = [], tr_rows = [[''Enthalpy (melting temperature)'', ''273.15 K'']]\<rparr>]
     = Inr (no_phase_data\<lparr>melting_point_K := Some (Fin (27315 / 100))\<rparr>)"
proof -
  have b: "parse_phase_change_data
             ([] @ [\<lparr>th_cells = [],
                    tr_rows = [[''Enthalpy of vaporization'', ''40.65'']]
                              @ [[''Enthalpy at boiling point'', ''373.15'']]\<rparr>])
           = Inr (no_phase_data\<lparr>heat_of_vaporization := Some (Fin (4065 / 100)),
                                 boiling_point_K := Some (Fin (37315 / 100))\<rparr>)"
    using parse_phase_change_data_point_before_enthalpy
            [of "[''Enthalpy at boiling point'', ''373.15'']" "Fin (37315 / 100)" "[]" "[]"
              "[[''Enthalpy of vaporization'', ''40.65'']]"]
    by (simp add: number_37315 label_boiling vaporization_table)
  have m: "parse_phase_change_data
             ([] @ [\<lparr>th_cells = [],
                    tr_rows = [] @ [[''Enthalpy (melting temperature)'', ''273.15 K'']]\<rparr>])
           = Inr (no_phase_data\<lparr>melting_point_K := Some (Fin (27315 / 100))\<rparr>)"
    using parse_phase_change_data_point_before_enthalpy
            [of "[''Enthalpy (melting temperature)'', ''273.15 K'']" "Fin (27315 / 100)" "[]" "[]"
              "[]"]
    by (simp add: number_27315 label_melting empty_table)
  show ?thesis using b m by simp
qed

text \<open>
  Claim C10 as stated fails for the labels of melting and fusion: the label
  \<open>Enthalpy of fusion at boiling point\<close> contains \<open>fusion\<close>, \<open>point\<close> and
  \<open>enthalpy\<close>, and its value is stored under \<open>boiling_point_K\<close>, because the test for
  \<open>boiling\<close> and \<open>vaporization\<close> comes first; \<open>melting_point_K\<close> stays unset.
\<close>

theorem parse_phase_change_data_fusion_at_boiling_point:
  "parse_phase_change_data
     [\<lparr>th_cells = [], tr_rows = [[''Enthalpy of fusion at boiling point'', ''100'']]\<rparr>]
   = Inr (no_phase_data\<lparr>boiling_point_K := Some (Fin 100)\<rparr>)
   \<and> contains (lower (strip ''Enthalpy of fusion at boiling point'')) ''fusion''
   \<and> contains (lower (strip ''Enthalpy of fusion at boiling point'')) ''point''
   \<and> contains (lower (strip ''Enthalpy of fusion at boiling point'')) ''enthalpy''
   \<and> melting_point_K (no_phase_data\<lparr>boiling_point_K := Some (Fin 100)\<rparr>) = None"
  by (simp add: parse_phase_change_data_def phase_eval)

section \<open>Properties of the synthetic generator\<close>

lemma length_linspace: "length (linspace a b n) = n"
  by (simp add: linspace_def)

lemma linspace_nth:
  assumes "2 \<le> n" and "i < n"
  shows "linspace a b n ! i = a + real i * ((b - a) / real (n - 1))"
proof (cases "i < n - 1")
  case True
  then show ?thesis using assms by (simp add: linspace_def nth_append)
next
  case False
  then have i: "i = n - 1" using assms by simp
  have "real (n - 1) \<noteq> 0" using assms by simp
  then have "a + real (n - 1) * ((b - a) / real (n - 1)) = b" by simp
  then show ?thesis using assms i by (simp add: linspace_def nth_append)
qed

lemma linspace_bounds:
  assumes "a \<le> b" and "x \<in> set (linspace a b n)"
  shows "a \<le> x \<and> x \<le> b"
proof -
  from assms(2) obtain i where i: "i < n" and x: "x = linspace a b n ! i"
    by (auto simp: in_set_conv_nth length_linspace)
  show ?thesis
  proof (cases "2 \<le> n")
    case False
    then have "n = 1" using i by simp
    then show ?thesis using i x assms(1) by (simp add: linspace_def)
  next
    case True
    have x': "x = a + real i * ((b - a) / real (n - 1))"
      using x linspace_nth [OF True i] by simp
    have pos: "0 < real (n - 1)" using True by simp
    have le: "real i \<le> real (n - 1)" using i by simp
    have d: "0 \<le> (b - a) / real (n - 1)" using assms(1) pos by simp
    have "real i * ((b - a) / real (n - 1)) \<le> real (n - 1) * ((b - a) / real (n - 1))"
      using le d by (rule mult_right_mono)
    also have "\<dots> = b - a" using pos by simp
    finally have up: "real i * ((b - a) / real (n - 1)) \<le> b - a" .
    have lo: "0 \<le> real i * ((b - a) / real (n - 1))"
      using d by (intro mult_nonneg_nonneg) simp_all
    show ?thesis using x' up lo by simp
  qed
qed

lemma synthetic_sample_row: "synthetic_row compound temp (synthetic_sample ev k compound props temp)"
  by (simp add: synthetic_row_def synthetic_sample_def update_props_def py_max_def Let_def)

lemma synthetic_temps_rows:
  "list_all2 (synthetic_row compound) temps (fst (synthetic_temps ev compound props k temps))"
  by (induction temps arbitrary: k) (simp_all add: synthetic_sample_row case_prod_beta)

lemma synthetic_temps_rng: "snd (synthetic_temps ev compound props k temps) = k + 3 * length temps"
  by (induction temps arbitrary: k) (simp_all add: case_prod_beta)

lemma list_all2_synthetic_row_temps:
  "list_all2 (synthetic_row c) temps rows \<Longrightarrow> map row_temperature rows = map Fin temps"
  by (induction temps rows rule: list_all2_induct) (auto simp: synthetic_row_def)

lemma list_all2_synthetic_row_filter_same:
  "list_all2 (synthetic_row c) temps rows \<Longrightarrow> filter (\<lambda>r. row_compound r = c) rows = rows"
  by (induction temps rows rule: list_all2_induct) (auto simp: synthetic_row_def)

lemma list_all2_synthetic_row_filter_other:
  "list_all2 (synthetic_row c) temps rows \<Longrightarrow> c' \<noteq> c
   \<Longrightarrow> filter (\<lambda>r. row_compound r = c') rows = []"
  by (induction temps rows rule: list_all2_induct) (auto simp: synthetic_row_def)

lemma synthetic_loop_length:
  "length (fst (synthetic_loop ev n k compounds)) = length compounds * n"
proof (induction compounds arbitrary: k)
  case Nil
  then show ?case by simp
next
  case (Cons c cs)
  have "length (fst (synthetic_temps ev c (get_molecular_properties c) k (linspace 200 2000 n))) = n"
    using synthetic_temps_rows [of c "linspace 200 2000 n" ev "get_molecular_properties c" k]
    by (auto dest: list_all2_lengthD simp: length_linspace)
  then show ?case using Cons.IH by (simp add: case_prod_beta)
qed

lemma synthetic_loop_rows:
  assumes "r \<in> set (fst (synthetic_loop ev n k compounds))"
  shows "\<exists>c\<in>set compounds. \<exists>t\<in>set (linspace 200 2000 n). synthetic_row c t r"
  using assms
proof (induction compounds arbitrary: k)
  case Nil
  then show ?case by simp
next
  case (Cons c cs)
  let ?rows = "fst (synthetic_temps ev c (get_molecular_properties c) k (linspace 200 2000 n))"
  have all2: "list_all2 (synthetic_row c) (linspace 200 2000 n) ?rows"
    by (rule synthetic_temps_rows)
  from Cons.prems consider "r \<in> set ?rows"
    | k1 where "r \<in> set (fst (synthetic_loop ev n k1 cs))"
    by (auto simp: case_prod_beta)
  then show ?case
  proof cases
    case 1
    then obtain i where "i < length ?rows" "r = ?rows ! i" by (auto simp: in_set_conv_nth)
    then have "synthetic_row c (linspace 200 2000 n ! i) r" "i < length (linspace 200 2000 n)"
      using all2 by (auto simp: list_all2_conv_all_nth)
    then show ?thesis by (auto intro: nth_mem)
  next
    case 2
    then show ?thesis using Cons.IH by auto
  qed
qed

lemma synthetic_loop_filter_absent:
  "c \<notin> set compounds \<Longrightarrow> filter (\<lambda>r. row_compound r = c) (fst (synthetic_loop ev n k compounds)) = []"
proof (induction compounds arbitrary: k)
  case Nil
  then show ?case by simp
next
  case (Cons c' cs)
  have "filter (\<lambda>r. row_compound r = c)
          (fst (synthetic_temps ev c' (get_molecular_properties c') k (linspace 200 2000 n))) = []"
    using Cons.prems
    by (intro list_all2_synthetic_row_filter_other [OF synthetic_temps_rows]) auto
  then show ?case using Cons by (simp add: case_prod_beta)
qed

lemma synthetic_loop_filter:
  assumes "c \<in> set compounds" and "distinct compounds"
  shows "map row_temperature (filter (\<lambda>r. row_compound r = c) (fst (synthetic_loop ev n k compounds)))
         = map Fin (linspace 200 2000 n)"
  using assms
proof (induction compounds arbitrary: k)
  case Nil
  then show ?case by simp
next
  case (Cons c' cs)
  let ?rows = "fst (synthetic_temps ev c' (get_molecular_properties c') k (linspace 200 2000 n))"
  have all2: "list_all2 (synthetic_row c') (linspace 200 2000 n) ?rows"
    by (rule synthetic_temps_rows)
  show ?case
  proof (cases "c = c'")
    case True
    then have "c \<notin> set cs" using Cons.prems by simp
    then show ?thesis
      using True list_all2_synthetic_row_filter_same [OF all2]
        list_all2_synthetic_row_temps [OF all2]
      by (simp add: synthetic_loop_filter_absent case_prod_beta)
  next
    case False
    then have "c \<in> set cs" "distinct cs" using Cons.prems by auto
    then show ?thesis
      using False Cons.IH list_all2_synthetic_row_filter_other [OF all2, of c]
      by (simp add: case_prod_beta)
  qed
qed

lemma samples_per_compound_eq:
  "samples_per_compound existing_count = nat (max ((100 - existing_count) div 10) 5)"
  unfolding samples_per_compound_def synthetic_compounds_def Let_def by (simp add: max_def) presburger

lemma samples_per_compound_ge: "5 \<le> samples_per_compound existing_count"
proof -
  have "(5::int) \<le> max ((100 - existing_count) div 10) 5" by simp
  then show ?thesis unfolding samples_per_compound_eq by linarith
qed

lemma distinct_synthetic_compounds: "distinct synthetic_compounds \<and> length synthetic_compounds = 10"
  by (simp add: synthetic_compounds_def)

lemma generate_rows:
  assumes "r \<in> set (fst (generate_synthetic_supplement ev k existing_count))"
  shows "\<exists>c\<in>set synthetic_compounds.
           \<exists>t\<in>set (linspace 200 2000 (samples_per_compound existing_count)). synthetic_row c t r"
  using assms unfolding generate_synthetic_supplement_def by (rule synthetic_loop_rows)

lemma generate_length:
  "length (fst (generate_synthetic_supplement ev k existing_count))
   = 10 * samples_per_compound existing_count"
  by (simp add: generate_synthetic_supplement_def synthetic_loop_length
      distinct_synthetic_compounds)

text \<open>
  Claim C6: for every existing count \<open>e\<close>, the generator makes
  \<open>max ((100 - e) div 10) 5\<close> rows for each of its ten compounds, so at least five
  each; the temperatures of the rows of one compound are, in order, the evenly spaced
  points of \<open>linspace 200 2000\<close>; every row has a heat capacity of at least 10 and an
  entropy of at least 0; and with \<open>e = 0\<close> the number of rows is at least 95 percent
  of the target of 100 minus \<open>e\<close>.
\<close>

theorem generate_synthetic_supplement_rows:
  "let rows = fst (generate_synthetic_supplement ev k existing_count);
       n = nat (max ((100 - existing_count) div 10) 5)
   in samples_per_compound existing_count = n \<and> 5 \<le> n \<and> length synthetic_compounds = 10
      \<and> length rows = 10 * n
      \<and> (\<forall>c\<in>set synthetic_compounds.
            map row_temperature (filter (\<lambda>r. row_compound r = c) rows)
              = map Fin (linspace 200 2000 n)
            \<and> length (filter (\<lambda>r. row_compound r = c) rows) = n)
      \<and> (\<forall>i<n. linspace 200 2000 n ! i = 200 + real i * (1800 / real (n - 1)))
      \<and> (\<forall>r\<in>set rows. \<exists>x y. row_heat_capacity r = Fin x \<and> 10 \<le> x
                                 \<and> row_entropy r = Some (Fin y) \<and> 0 \<le> y)
      \<and> (existing_count = 0 \<longrightarrow> 95 * (100 - existing_count) \<le> 100 * int (length rows))"
proof -
  define n where "n = nat (max ((100 - existing_count) div 10) 5)"
  define rows where "rows = fst (generate_synthetic_supplement ev k existing_count)"
  have spc: "samples_per_compound existing_count = n"
    by (simp add: n_def samples_per_compound_eq)
  have n5: "5 \<le> n" using samples_per_compound_ge [of existing_count] spc by simp
  have len: "length rows = 10 * n" by (simp add: rows_def generate_length spc)
  have temps: "map row_temperature (filter (\<lambda>r. row_compound r = c) rows)
                 = map Fin (linspace 200 2000 n)
               \<and> length (filter (\<lambda>r. row_compound r = c) rows) = n"
    if "c \<in> set synthetic_compounds" for c
  proof -
    have m: "map row_temperature (filter (\<lambda>r. row_compound r = c) rows)
              = map Fin (linspace 200 2000 n)"
      unfolding rows_def generate_synthetic_supplement_def spc
      using that distinct_synthetic_compounds by (intro synthetic_loop_filter) simp_all
    have "length (map row_temperature (filter (\<lambda>r. row_compound r = c) rows))
            = length (map Fin (linspace 200 2000 n))"
      using m by (rule arg_cong)
    then have "length (filter (\<lambda>r. row_compound r = c) rows) = n"
      unfolding length_map length_linspace .
    then show ?thesis using m by (rule conjI [rotated])
  qed
  have even: "linspace 200 2000 n ! i = 200 + real i * (1800 / real (n - 1))" if "i < n" for i
    using linspace_nth [of n i 200 2000] that n5 by simp
  have vals: "\<exists>x y. row_heat_capacity r = Fin x \<and> 10 \<le> x \<and> row_entropy r = Some (Fin y) \<and> 0 \<le> y"
    if "r \<in> set rows" for r
    using generate_rows [of r ev k existing_count] that
    by (auto simp: rows_def synthetic_row_def)
  have total: "95 * (100 - existing_count) \<le> 100 * int (length rows)" if "existing_count = 0"
    using that len by (simp add: n_def)
  show ?thesis
    unfolding Let_def n_def [symmetric] rows_def [symmetric]
    using spc n5 len temps even vals total distinct_synthetic_compounds by blast
qed

text \<open>
  With no existing row the generator makes 100 rows; those of \<open>H2O\<close> have the ten
  temperatures 200, 400, ..., 2000.
\<close>

theorem generate_synthetic_supplement_rows_witness:
  "length (fst (generate_synthetic_supplement offline_env 0 0)) = 100
   \<and> map row_temperature
       (filter (\<lambda>r. row_compound r = ''H2O'') (fst (generate_synthetic_supplement offline_env 0 0)))
     = map Fin (linspace 200 2000 10)
   \<and> linspace 200 2000 10 ! 1 = 400"
proof -
  have h: "''H2O'' \<in> set synthetic_compounds" by (simp add: synthetic_compounds_def)
  have i: "(1::nat) < 10" by simp
  show ?thesis
    using generate_synthetic_supplement_rows [of offline_env 0 0] h i
    unfolding Let_def by fastforce
qed

section \<open>Properties of the training table\<close>

lemma get_thermodynamic_data_good:
  "get_thermodynamic_data ev cid = NoData
   \<or> (\<exists>rows. get_thermodynamic_data ev cid = Frame rows \<and> rows \<noteq> []
              \<and> list_all (\<lambda>r. fgt (heat_capacity r) (Fin 0)) rows)"
  by (auto simp: get_thermodynamic_data_def list_all_iff split: sum.splits option.splits
      dest: parse_thermodynamic_tables_rows)

lemma scrape_compound_data_good:
  "scrape_compound_data ev c = Some d \<Longrightarrow> good_result d"
proof -
  assume a: "scrape_compound_data ev c = Some d"
  then obtain cid where "thermodynamic_data d = get_thermodynamic_data ev cid"
    by (auto simp: scrape_compound_data_def split: option.splits if_splits)
  then show "good_result d"
    using get_thermodynamic_data_good [of ev cid] by (auto simp: good_result_def)
qed

lemma dict_set_good:
  "list_all (\<lambda>(c, d). good_result d) raw \<Longrightarrow> good_result d
   \<Longrightarrow> list_all (\<lambda>(c, d). good_result d) (dict_set k d raw)"
  by (auto simp: dict_set_def list_all_iff split: if_splits)

lemma collect_loop_good:
  "list_all (\<lambda>(c, d). good_result d) raw
   \<Longrightarrow> list_all (\<lambda>(c, d). good_result d) (collect_loop ev cs raw)"
proof (induction cs arbitrary: raw)
  case Nil
  then show ?case by simp
next
  case (Cons c cs)
  show ?case
  proof (cases "scrape_compound_data ev c")
    case None
    then show ?thesis using Cons by simp
  next
    case (Some d)
    then have "good_result d" by (rule scrape_compound_data_good)
    then have "list_all (\<lambda>(c, d). good_result d) (dict_set c d raw)"
      using Cons.prems by (simp add: dict_set_good)
    then show ?thesis using Some Cons by simp
  qed
qed

lemma real_sample_valid:
  assumes "fgt (heat_capacity row) (Fin 0)"
    and "fge (temperature row) (Fin 200)" and "fle (temperature row) (Fin 2000)"
  shows "valid_row (real_sample ev compound row)"
  using assms by (simp add: valid_row_def real_sample_def update_props_def)

lemma process_for_training_valid:
  "list_all (\<lambda>(c, d). good_result d) raw
   \<Longrightarrow> \<exists>t. process_for_training ev raw = Inr t \<and> list_all valid_row t"
proof (induction raw)
  case Nil
  then show ?case by simp
next
  case (Cons p raw)
  obtain c d where p: "p = (c, d)" by (cases p)
  from Cons obtain t where t: "process_for_training ev raw = Inr t" "list_all valid_row t"
    by auto
  have g: "good_result d" using Cons.prems p by simp
  show ?case
  proof (cases "thermodynamic_data d")
    case NoData
    then show ?thesis using t p by simp
  next
    case (PyList rows)
    then show ?thesis using g by (simp add: good_result_def)
  next
    case (Frame df)
    then have "list_all (\<lambda>r. fgt (heat_capacity r) (Fin 0)) df"
      using g by (simp add: good_result_def)
    then have "list_all valid_row (map (real_sample ev c) (in_range (dropna df)))"
      by (auto simp: list_all_iff in_range_def dropna_def intro: real_sample_valid)
    then show ?thesis using t p Frame by simp
  qed
qed

lemma synthetic_row_valid:
  assumes "synthetic_row c t r" and "200 \<le> t" and "t \<le> 2000"
  shows "valid_row r"
  using assms by (auto simp: synthetic_row_def valid_row_def fge_def fle_def fgt_def)

lemma generate_valid: "list_all valid_row (fst (generate_synthetic_supplement ev k e))"
proof -
  have "valid_row r" if "r \<in> set (fst (generate_synthetic_supplement ev k e))" for r
  proof -
    from generate_rows [OF that] obtain c t
      where t: "t \<in> set (linspace 200 2000 (samples_per_compound e))" and r: "synthetic_row c t r"
      by blast
    have "200 \<le> t \<and> t \<le> 2000" using linspace_bounds [of 200 2000 t] t by simp
    then show ?thesis using r by (auto intro: synthetic_row_valid)
  qed
  then show ?thesis by (simp add: list_all_iff)
qed

lemma supplement_valid:
  "list_all valid_row t \<Longrightarrow> list_all valid_row (fst (supplement ev w t))"
  using generate_valid [of ev "rng w" "int (length t)"]
  by (simp add: supplement_def case_prod_beta)

lemma collect_hackathon_dataset_valid:
  assumes "fst (collect_hackathon_dataset ev w) = Inr t"
  shows "list_all valid_row t"
proof -
  have "list_all (\<lambda>(c, d). good_result d) (collect_loop ev target_compounds [])"
    by (rule collect_loop_good) simp
  from process_for_training_valid [OF this, of ev] obtain t0
    where t0: "process_for_training ev (collect_loop ev target_compounds []) = Inr t0"
      "list_all valid_row t0"
    by blast
  show ?thesis
    using assms t0 supplement_valid [OF t0(2), of ev]
    by (auto simp: collect_hackathon_dataset_def Let_def case_prod_beta
        split: sum.splits if_splits)
qed

lemma emergency_valid:
  assumes "fst (emergency ev w) = Inr t"
  shows "list_all valid_row t"
  using assms generate_valid [of ev "rng w" 0]
  by (auto simp: emergency_def Let_def case_prod_beta split: sum.splits)

lemma main_valid:
  assumes "fst (main ev w) = Inr t"
  shows "list_all valid_row t"
proof (cases "collect_hackathon_dataset ev w")
  case (Pair res w1)
  show ?thesis
  proof (cases res)
    case (Inl e)
    then show ?thesis using assms Pair by (simp add: main_def emergency_valid)
  next
    case (Inr data)
    then have d: "list_all valid_row data"
      using collect_hackathon_dataset_valid [of ev w data] Pair by simp
    show ?thesis
      using assms Pair Inr d
      by (auto simp: main_def emergency_valid split: if_splits sum.splits)
  qed
qed

lemma demo_tables: "parse_thermodynamic_tables [demo_table] = Some demo_rows"
  by (simp add: demo_table_def demo_rows_def table_eval)

lemma demo_collect: "collect_loop demo_env target_compounds [] = demo_raw"
  by (simp add: target_compounds_def scrape_compound_data_def demo_env_def demo_raw_def
      get_thermodynamic_data_def get_phase_change_data_def demo_tables dict_set_def)

lemma demo_process: "process_for_training demo_env demo_raw = Inr [demo_sample]"
  by (simp add: demo_raw_def demo_rows_def demo_sample_def dropna_def in_range_def
      is_nan_def fge_def fle_def real_sample_def update_props_def compound_code_def
      get_molecular_properties_def properties_def demo_env_def)

lemma generate_nonempty: "fst (generate_synthetic_supplement ev k e) \<noteq> []"
proof -
  have "0 < length (fst (generate_synthetic_supplement ev k e))"
    using samples_per_compound_ge [of e] by (simp add: generate_length)
  then show ?thesis by blast
qed

lemma demo_writable: "writable demo_env filename"
  by (simp add: demo_env_def)

lemma demo_serialize: "\<exists>s. serialize demo_raw = Inr s"
  by (simp add: demo_raw_def serialize_one_def)

lemma demo_main:
  "fst (main demo_env world0)
   = Inr (demo_sample # fst (generate_synthetic_supplement demo_env 0 1))"
proof -
  obtain s where s: "serialize demo_raw = Inr s" using demo_serialize by blast
  have n: "demo_raw \<noteq> []" by (simp add: demo_raw_def)
  have r: "rng world0 = 0" by (simp add: world0_def)
  have "fst (collect_hackathon_dataset demo_env world0)
        = Inr (demo_sample # fst (generate_synthetic_supplement demo_env 0 1))"
    by (simp add: collect_hackathon_dataset_def demo_collect demo_process n s r
        supplement_def save_data_def write_file_def demo_writable case_prod_beta Let_def)
  then show ?thesis
    by (cases "collect_hackathon_dataset demo_env world0")
      (simp add: main_def write_file_def demo_writable)
qed

text \<open>
  Claim C7: every row of the table that \<open>main\<close> returns, from scraped records, from
  the synthetic supplement or from the fallback of \<open>main\<close>, has a temperature within
  \<open>[200, 2000]\<close>, a heat capacity above 0, and a molecular weight, a number of atoms
  and a polarity flag that are present.
\<close>

theorem main_table_rows:
  assumes "fst (main ev w) = Inr table" and "r \<in> set table"
  shows "fge (row_temperature r) (Fin 200) \<and> fle (row_temperature r) (Fin 2000)
       \<and> fgt (row_heat_capacity r) (Fin 0)
       \<and> row_molecular_weight r \<noteq> None \<and> row_n_atoms r \<noteq> None \<and> row_is_polar r \<noteq> None"
  using main_valid [OF assms(1)] assms(2) by (simp add: list_all_iff valid_row_def)

text \<open>
  With the environment above \<open>main\<close> returns the sample of \<open>H2O\<close> at 300 K
  followed by the synthetic supplement.
\<close>

theorem main_table_rows_witness:
  "fst (main demo_env world0)
     = Inr (demo_sample # fst (generate_synthetic_supplement demo_env 0 1))
   \<and> fge (row_temperature demo_sample) (Fin 200) \<and> fle (row_temperature demo_sample) (Fin 2000)
   \<and> fgt (row_heat_capacity demo_sample) (Fin 0)
   \<and> row_molecular_weight demo_sample \<noteq> None \<and> row_n_atoms demo_sample \<noteq> None
   \<and> row_is_polar demo_sample \<noteq> None"
  using main_table_rows [OF demo_main, of demo_sample] demo_main by simp

section \<open>Properties of \<open>main\<close>\<close>

lemma emergency_unwritable:
  "\<not> writable ev ''final_training_data.csv'' \<Longrightarrow> fst (emergency ev w) = Inl OSError"
  by (simp add: emergency_def write_file_def case_prod_beta Let_def)

lemma main_unwritable:
  "\<not> writable ev ''final_training_data.csv'' \<Longrightarrow> fst (main ev w) = Inl OSError"
  by (cases "collect_hackathon_dataset ev w")
    (simp add: main_def write_file_def emergency_unwritable split: sum.splits)

lemma emergency_writable:
  assumes "writable ev ''final_training_data.csv''"
  shows "emergency ev w
         = (Inr (fst (generate_synthetic_supplement ev (rng w) 0)),
            w\<lparr>rng := snd (generate_synthetic_supplement ev (rng w) 0),
              files := (files w)(''final_training_data.csv'' \<mapsto>
                         CsvFile (fst (generate_synthetic_supplement ev (rng w) 0)))\<rparr>)"
  using assms by (simp add: emergency_def write_file_def case_prod_beta Let_def)

text \<open>
  Claim C1, as the code has it: when \<open>final_training_data.csv\<close> can be written,
  \<open>main\<close> returns a table with at least one row and that table is the content of the
  file, whatever the collection did; when the collection raised, the table is the one
  of \<open>generate_synthetic_supplement(0)\<close>.
\<close>

theorem main_returns_table:
  assumes "writable ev ''final_training_data.csv''"
  shows "\<exists>data. fst (main ev w) = Inr data \<and> data \<noteq> []
           \<and> files (snd (main ev w)) ''final_training_data.csv'' = Some (CsvFile data)
           \<and> (\<forall>e w1. collect_hackathon_dataset ev w = (Inl e, w1)
                 \<longrightarrow> data = fst (generate_synthetic_supplement ev (rng w1) 0))"
proof (cases "collect_hackathon_dataset ev w")
  case (Pair res w1)
  note em = emergency_writable [OF assms, of w1]
  show ?thesis
  proof (cases res)
    case (Inl e)
    then show ?thesis using Pair em by (simp add: main_def generate_nonempty)
  next
    case (Inr data)
    show ?thesis
    proof (cases "data = []")
      case True
      then show ?thesis using Pair Inr em by (simp add: main_def generate_nonempty)
    next
      case False
      then show ?thesis using Pair Inr assms by (simp add: main_def write_file_def)
    qed
  qed
qed

lemma synthetic_loop_rng:
  "snd (synthetic_loop ev n k compounds) = k + 3 * n * length compounds"
  by (induction compounds arbitrary: k)
    (simp_all add: case_prod_beta synthetic_temps_rng length_linspace algebra_simps)

lemma generate_rng:
  "snd (generate_synthetic_supplement ev k e) = k + 30 * samples_per_compound e"
  by (simp add: generate_synthetic_supplement_def synthetic_loop_rng
      distinct_synthetic_compounds)

lemma final_only_collect: "collect_loop final_only_env target_compounds [] = []"
  by (simp add: target_compounds_def scrape_compound_data_def offline_env_def final_only_env_def)

lemma final_only_dataset:
  "collect_hackathon_dataset final_only_env world0 = (Inl OSError, world0\<lparr>rng := 300\<rparr>)"
proof -
  have s: "samples_per_compound 0 = 10" by (simp add: samples_per_compound_eq)
  have w: "\<not> writable final_only_env ''hackathon_training_data.csv''"
    by (simp add: final_only_env_def)
  show ?thesis
    by (simp add: collect_hackathon_dataset_def final_only_collect supplement_def
        write_file_def w case_prod_beta Let_def generate_rng s world0_def)
qed

text \<open>
  Where only \<open>final_training_data.csv\<close> can be written, the collection raises at its
  own \<open>to_csv\<close> and \<open>main\<close> returns the 100 rows of the synthetic generator.
\<close>

theorem main_returns_table_witness:
  "collect_hackathon_dataset final_only_env world0 = (Inl OSError, world0\<lparr>rng := 300\<rparr>)
   \<and> fst (main final_only_env world0)
       = Inr (fst (generate_synthetic_supplement final_only_env 300 0))
   \<and> length (fst (generate_synthetic_supplement final_only_env 300 0)) = 100"
proof -
  have w: "writable final_only_env ''final_training_data.csv''"
    by (simp add: final_only_env_def)
  have s: "samples_per_compound 0 = 10" by (simp add: samples_per_compound_eq)
  show ?thesis
    using main_returns_table [OF w, of world0] final_only_dataset
    by (auto simp: generate_length s)
qed

text \<open>
  Claim C1 as stated fails where the file cannot be written: the \<open>to_csv\<close> of the
  handler is outside every \<open>try\<close>, and \<open>main\<close> ends with its exception.
\<close>

theorem main_readonly_raises: "fst (main readonly_env world0) = Inl OSError"
  by (rule main_unwritable) (simp add: readonly_env_def)

section \<open>Saving, reloading and aggregating\<close>





lemma good_result_frame: "good_result d \<Longrightarrow> thermodynamic_data d \<noteq> Frame []"
  by (auto simp: good_result_def)

lemma collect_loop_frames:
  "\<forall>(c, d)\<in>set (collect_loop ev cs []). thermodynamic_data d \<noteq> Frame []"
  using collect_loop_good [of "[]" ev cs] by (auto simp: list_all_iff dest: good_result_frame)








section \<open>Checkpoints of the scrape loop\<close>

lemma read_nat_snoc: "read_nat (s @ [c]) = 10 * read_nat s + (of_char c - 48)"
  by (simp add: read_nat_def)

lemma digit_char: "d < 10 \<Longrightarrow> of_char (char_of (48 + d)) = 48 + (d::nat)"
  by (simp add: of_char_of)

lemma read_show_nat: "read_nat (show_nat n) = n"
proof (induction n rule: show_nat.induct)
  case (1 n)
  show ?case
  proof (cases "n < 10")
    case True
    then have "show_nat n = [char_of (48 + n)]" by (subst show_nat.simps) simp
    then show ?thesis using True digit_char [of n] by (simp add: read_nat_def)
  next
    case False
    then have s: "show_nat n = show_nat (n div 10) @ [char_of (48 + n mod 10)]"
      by (subst show_nat.simps) simp
    have "read_nat (show_nat (n div 10)) = n div 10" using 1 False by simp
    then show ?thesis
      unfolding s read_nat_snoc using digit_char [of "n mod 10"] by simp
  qed
qed

lemma progress_file_inj: "progress_file i = progress_file k \<Longrightarrow> i = k"
proof -
  assume "progress_file i = progress_file k"
  then have "show_nat (i + 1) = show_nat (k + 1)" by (simp add: progress_file_def)
  then have "read_nat (show_nat (i + 1)) = read_nat (show_nat (k + 1))" by simp
  then show "i = k" by (simp add: read_show_nat)
qed

lemma scrape_compound_data_writable:
  "scrape_compound_data (ev\<lparr>writable := wr\<rparr>) c = scrape_compound_data ev c"
proof -
  have "get_thermodynamic_data (ev\<lparr>writable := wr\<rparr>) = get_thermodynamic_data ev"
    and "get_phase_change_data (ev\<lparr>writable := wr\<rparr>) = get_phase_change_data ev"
    by (simp_all add: fun_eq_iff get_thermodynamic_data_def get_phase_change_data_def)
  then show ?thesis by (simp add: scrape_compound_data_def split: option.splits)
qed

lemma scrape_results_writable:
  "scrape_results (ev\<lparr>writable := wr\<rparr>) cs results = scrape_results ev cs results"
  by (induction cs arbitrary: results)
    (simp_all add: scrape_compound_data_writable split: option.splits)

lemma scrape_loop_results:
  "fst (scrape_loop ev sp j cs results w) = scrape_results ev cs results"
proof (induction cs arbitrary: j results w sp)
  case Nil
  then show ?case by simp
next
  case (Cons c cs)
  show ?case
    by (cases "scrape_compound_data ev c") (auto simp: Let_def Cons split: sum.splits)
qed

lemma scrape_loop_append:
  "scrape_loop ev sp j (xs @ ys) results w
   = scrape_loop ev sp (j + length xs) ys
       (fst (scrape_loop ev sp j xs results w)) (snd (scrape_loop ev sp j xs results w))"
proof (induction xs arbitrary: j results w sp)
  case Nil
  then show ?case by simp
next
  case (Cons c xs)
  show ?case
    by (cases "scrape_compound_data ev c") (auto simp: Let_def Cons split: sum.splits)
qed

lemma scrape_loop_files:
  assumes "\<forall>k\<ge>j. filename \<noteq> progress_file k"
  shows "files (snd (scrape_loop ev sp j cs results w)) filename = files w filename"
  using assms
proof (induction cs arbitrary: j results w)
  case Nil
  then show ?case by simp
next
  case (Cons c cs)
  have ih: "files (snd (scrape_loop ev sp' (Suc j) cs r v)) filename = files v filename"
    if "sp' = sp" for r v sp'
    unfolding that using Cons.prems by (intro Cons.IH) auto
  have n: "filename \<noteq> progress_file j" using Cons.prems by auto
  show ?case
    by (cases "scrape_compound_data ev c")
      (auto simp: Let_def ih n save_data_def write_file_def split: sum.splits if_splits)
qed

lemma serialize_good:
  "list_all (\<lambda>(c, d). good_result d) raw \<Longrightarrow> \<exists>s. serialize raw = Inr s"
proof (induction raw)
  case Nil
  then show ?case by simp
next
  case (Cons p raw)
  obtain c d where p: "p = (c, d)" by (cases p)
  from Cons obtain s where s: "serialize raw = Inr s" by auto
  have "good_result d" using Cons.prems p by simp
  then obtain sd where "serialize_one d = Inr sd"
    by (cases "thermodynamic_data d") (auto simp: good_result_def serialize_one_def)
  then show ?case using s p by simp
qed

lemma scrape_loop_good:
  "list_all (\<lambda>(c, d). good_result d) results
   \<Longrightarrow> list_all (\<lambda>(c, d). good_result d) (fst (scrape_loop ev sp j cs results w))"
proof (induction cs arbitrary: j results w)
  case Nil
  then show ?case by simp
next
  case (Cons c cs)
  show ?case
  proof (cases "scrape_compound_data ev c")
    case None
    then show ?thesis using Cons by simp
  next
    case (Some d)
    then have "good_result d" by (rule scrape_compound_data_good)
    then have "list_all (\<lambda>(c, d). good_result d) (dict_set c d results)"
      using Cons.prems by (simp add: dict_set_good)
    then show ?thesis using Some Cons.IH by (auto simp: Let_def split: sum.splits)
  qed
qed

lemma scrape_loop_last:
  assumes "list_all (\<lambda>(c, d). good_result d) results"
    and "cs \<noteq> []" and "(j + length cs) mod 5 = 0"
    and "scrape_compound_data ev (last cs) \<noteq> None"
    and "writable ev (progress_file (j + length cs - 1))"
  shows "\<exists>s. serialize (fst (scrape_loop ev True j cs results w)) = Inr s
           \<and> files (snd (scrape_loop ev True j cs results w)) (progress_file (j + length cs - 1))
             = Some (JsonFile s)"
  using assms
proof (induction cs arbitrary: j results w)
  case Nil
  then show ?case by simp
next
  case (Cons c cs)
  show ?case
  proof (cases "cs = []")
    case True
    from Cons.prems True obtain d where d: "scrape_compound_data ev c = Some d" by auto
    then have "good_result d" by (rule scrape_compound_data_good)
    then have "list_all (\<lambda>(c, d). good_result d) (dict_set c d results)"
      using Cons.prems by (simp add: dict_set_good)
    then obtain s where "serialize (dict_set c d results) = Inr s"
      using serialize_good by blast
    then show ?thesis
      using Cons.prems True d by (simp add: Let_def save_data_def write_file_def)
  next
    case False
    have ih: "\<exists>s. serialize (fst (scrape_loop ev True (Suc j) cs r v)) = Inr s
               \<and> files (snd (scrape_loop ev True (Suc j) cs r v))
                    (progress_file (j + length (c # cs) - 1)) = Some (JsonFile s)"
      if "list_all (\<lambda>(c, d). good_result d) r" for r v
      using Cons.IH [of r "Suc j" v] that False Cons.prems by simp
    show ?thesis
    proof (cases "scrape_compound_data ev c")
      case None
      then show ?thesis using ih [OF Cons.prems(1)] by simp
    next
      case (Some d)
      then have "good_result d" by (rule scrape_compound_data_good)
      then have g: "list_all (\<lambda>(c, d). good_result d) (dict_set c d results)"
        using Cons.prems by (simp add: dict_set_good)
      show ?thesis using Some ih [OF g] by (auto simp: Let_def split: sum.splits)
    qed
  qed
qed

lemma progress_file_head: "progress_file i = CHR ''n'' # tl (progress_file i)"
  by (simp add: progress_file_def)

lemma collect_hackathon_dataset_files:
  assumes "filename \<noteq> ''hackathon_raw_data.json''" and "filename \<noteq> ''hackathon_training_data.csv''"
  shows "files (snd (collect_hackathon_dataset ev w)) filename = files w filename"
  using assms
  by (auto simp: collect_hackathon_dataset_def supplement_def save_data_def write_file_def
      Let_def case_prod_beta split: sum.splits if_splits)

text \<open>The progress file of a position whose compound yields data.\<close>

lemma checkpoint_file_written:
  assumes "i < length cs" and "(i + 1) mod 5 = 0"
    and "scrape_compound_data ev (cs ! i) \<noteq> None"
  shows "(writable ev (progress_file i) \<longrightarrow>
            (\<exists>s. serialize (fst (scrape_multiple_compounds ev w (take (i + 1) cs) True)) = Inr s
                \<and> files (snd (scrape_multiple_compounds ev w cs True)) (progress_file i)
                  = Some (JsonFile s)))
       \<and> fst (scrape_multiple_compounds (ev\<lparr>writable := wr\<rparr>) w cs True)
         = fst (scrape_multiple_compounds ev w cs True)
       \<and> files (snd (collect_hackathon_dataset ev w)) (progress_file i)
         = files w (progress_file i)"
proof (intro conjI impI)
  assume wr: "writable ev (progress_file i)"
  let ?xs = "take (i + 1) cs"
  have len: "length ?xs = i + 1" using assms(1) by simp
  have ne: "?xs \<noteq> []" using assms(1) by (cases cs) auto
  have la: "last ?xs = cs ! i"
    using assms(1) by (simp add: take_Suc_conv_app_nth)
  have g: "list_all (\<lambda>(c, d). good_result d) []" by simp
  have m: "(0 + length ?xs) mod 5 = 0" unfolding len using assms(2) by simp
  have sl: "scrape_compound_data ev (last ?xs) \<noteq> None" unfolding la by (rule assms(3))
  have wl: "writable ev (progress_file (0 + length ?xs - 1))" unfolding len using wr by simp
  have e: "progress_file (0 + length ?xs - 1) = progress_file i" unfolding len by simp
  obtain s where s: "serialize (fst (scrape_loop ev True 0 ?xs [] w)) = Inr s"
    and f: "files (snd (scrape_loop ev True 0 ?xs [] w)) (progress_file i) = Some (JsonFile s)"
    using scrape_loop_last [OF g ne m sl wl, of w] unfolding e by blast
  have app: "scrape_loop ev True 0 cs [] w
        = scrape_loop ev True (i + 1) (drop (i + 1) cs)
            (fst (scrape_loop ev True 0 ?xs [] w)) (snd (scrape_loop ev True 0 ?xs [] w))"
    using scrape_loop_append [of ev True 0 ?xs "drop (i + 1) cs" "[]" w]
    unfolding append_take_drop_id len add_0 .
  have other: "\<forall>k\<ge>i + 1. progress_file i \<noteq> progress_file k"
    by (auto dest: progress_file_inj)
  have "files (snd (scrape_loop ev True 0 cs [] w)) (progress_file i) = Some (JsonFile s)"
    unfolding app scrape_loop_files [OF other] by (rule f)
  then show "\<exists>s. serialize (fst (scrape_multiple_compounds ev w (take (i + 1) cs) True)) = Inr s
               \<and> files (snd (scrape_multiple_compounds ev w cs True)) (progress_file i)
                 = Some (JsonFile s)"
    using s by (simp add: scrape_multiple_compounds_def)
next
  show "fst (scrape_multiple_compounds (ev\<lparr>writable := wr\<rparr>) w cs True)
        = fst (scrape_multiple_compounds ev w cs True)"
    by (simp add: scrape_multiple_compounds_def scrape_loop_results scrape_results_writable)
next
  have "progress_file i \<noteq> ''hackathon_raw_data.json''"
    and "progress_file i \<noteq> ''hackathon_training_data.csv''"
    using progress_file_head [of i] by auto
  then show "files (snd (collect_hackathon_dataset ev w)) (progress_file i)
             = files w (progress_file i)"
    by (rule collect_hackathon_dataset_files)
qed

lemma scrape_loop_step:
  "\<exists>r1 w1. scrape_loop ev sp j (c # cs) results w = scrape_loop ev sp (Suc j) cs r1 w1
      \<and> (files w1 = files w
          \<or> (sp \<and> (j + 1) mod 5 = 0 \<and> scrape_compound_data ev c \<noteq> None
              \<and> writable ev (progress_file j)
              \<and> (\<exists>s. files w1 = (files w)(progress_file j \<mapsto> JsonFile s))))"
proof (cases "scrape_compound_data ev c")
  case None
  then show ?thesis by auto
next
  case (Some d)
  show ?thesis
  proof (cases "sp \<and> (j + 1) mod 5 = 0")
    case False
    then show ?thesis using Some by (auto simp: Let_def)
  next
    case True
    show ?thesis
    proof (cases "save_data ev w (dict_set c d results) (progress_file j)")
      case (Inl e)
      then show ?thesis using Some True by (auto simp: Let_def)
    next
      case (Inr w')
      then obtain s where "writable ev (progress_file j)"
        and "files w' = (files w)(progress_file j \<mapsto> JsonFile s)"
        by (auto simp: save_data_def write_file_def split: sum.splits if_splits)
      then show ?thesis using Some True Inr by (auto simp: Let_def)
    qed
  qed
qed

lemma scrape_loop_no_file:
  assumes "\<not> (sp \<and> (i + 1) mod 5 = 0 \<and> j \<le> i \<and> i < j + length cs
              \<and> scrape_compound_data ev (cs ! (i - j)) \<noteq> None
              \<and> writable ev (progress_file i))"
  shows "files (snd (scrape_loop ev sp j cs results w)) (progress_file i)
         = files w (progress_file i)"
  using assms
proof (induction cs arbitrary: j results w)
  case Nil
  then show ?case by simp
next
  case (Cons c cs)
  obtain r1 w1 where st: "scrape_loop ev sp j (c # cs) results w = scrape_loop ev sp (Suc j) cs r1 w1"
    and fw: "files w1 = files w
             \<or> (sp \<and> (j + 1) mod 5 = 0 \<and> scrape_compound_data ev c \<noteq> None
                 \<and> writable ev (progress_file j)
                 \<and> (\<exists>s. files w1 = (files w)(progress_file j \<mapsto> JsonFile s)))"
    by atomize_elim (rule scrape_loop_step)
  have same: "files w1 (progress_file i) = files w (progress_file i)"
  proof (cases "i = j")
    case True
    then have "files w1 = files w" using fw Cons.prems by auto
    then show ?thesis by simp
  next
    case False
    then have "progress_file i \<noteq> progress_file j" by (auto dest: progress_file_inj)
    then show ?thesis using fw by auto
  qed
  have rest: "files (snd (scrape_loop ev sp (Suc j) cs r1 w1)) (progress_file i)
              = files w1 (progress_file i)"
  proof (cases "i \<le> j")
    case True
    then have "\<forall>k\<ge>Suc j. progress_file i \<noteq> progress_file k"
      by (auto dest: progress_file_inj)
    then show ?thesis by (rule scrape_loop_files)
  next
    case False
    then have "(c # cs) ! (i - j) = cs ! (i - Suc j)" by (simp add: nth_Cons')
    then show ?thesis using Cons.prems False by (intro Cons.IH) auto
  qed
  show ?case unfolding st rest same ..
qed

text \<open>
  Claim C9, as the code has it. In \<open>scrape_multiple_compounds\<close> with \<open>save_progress\<close>,
  at a position \<open>i + 1\<close> that is a multiple of 5: when the compound yields data and the
  progress file of the position can be written, the results accumulated up to that
  compound are serialized to it, and the file is still there at the end; when the
  compound is not found, or the file cannot be written, the loop leaves that file as it
  was before. What can or cannot be written changes nothing in the results of the loop.
  The loop of \<open>collect_hackathon_dataset\<close> writes no progress file.
\<close>

theorem scrape_multiple_compounds_checkpoint:
  assumes "i < length cs" and "(i + 1) mod 5 = 0"
  shows "(scrape_compound_data ev (cs ! i) \<noteq> None \<and> writable ev (progress_file i) \<longrightarrow>
            (\<exists>s. serialize (fst (scrape_multiple_compounds ev w (take (i + 1) cs) True)) = Inr s
                \<and> files (snd (scrape_multiple_compounds ev w cs True)) (progress_file i)
                  = Some (JsonFile s)))
       \<and> (scrape_compound_data ev (cs ! i) = None \<longrightarrow>
            files (snd (scrape_multiple_compounds ev w cs True)) (progress_file i)
            = files w (progress_file i))
       \<and> (\<not> writable ev (progress_file i) \<longrightarrow>
            files (snd (scrape_multiple_compounds ev w cs True)) (progress_file i)
            = files w (progress_file i))
       \<and> fst (scrape_multiple_compounds (ev\<lparr>writable := wr\<rparr>) w cs True)
         = fst (scrape_multiple_compounds ev w cs True)
       \<and> files (snd (collect_hackathon_dataset ev w)) (progress_file i)
         = files w (progress_file i)"
proof -
  have none: "files (snd (scrape_multiple_compounds ev w cs True)) (progress_file i)
              = files w (progress_file i)"
    if "scrape_compound_data ev (cs ! i) = None \<or> \<not> writable ev (progress_file i)"
    unfolding scrape_multiple_compounds_def using that by (intro scrape_loop_no_file) auto
  have written: "\<exists>s. serialize (fst (scrape_multiple_compounds ev w (take (i + 1) cs) True)) = Inr s
                   \<and> files (snd (scrape_multiple_compounds ev w cs True)) (progress_file i)
                     = Some (JsonFile s)"
    if "scrape_compound_data ev (cs ! i) \<noteq> None" and "writable ev (progress_file i)"
    using checkpoint_file_written [OF assms that(1), of w wr] that(2) by blast
  have results: "fst (scrape_multiple_compounds (ev\<lparr>writable := wr\<rparr>) w cs True)
                 = fst (scrape_multiple_compounds ev w cs True)"
    by (simp add: scrape_multiple_compounds_def scrape_loop_results scrape_results_writable)
  have "progress_file i \<noteq> ''hackathon_raw_data.json''"
    and "progress_file i \<noteq> ''hackathon_training_data.csv''"
    using progress_file_head [of i] by auto
  then have orch: "files (snd (collect_hackathon_dataset ev w)) (progress_file i)
                   = files w (progress_file i)"
    by (rule collect_hackathon_dataset_files)
  show ?thesis using none written results orch by blast
qed

lemma demo_scrape_H2O:
  "scrape_compound_data demo_env ''H2O''
   = Some \<lparr>formula = ''H2O'', compound_id = ''C7732185'',
            thermodynamic_data = Frame demo_rows, phase_change_data = no_phase_data\<rparr>"
  by (simp add: scrape_compound_data_def demo_env_def get_thermodynamic_data_def
      get_phase_change_data_def demo_tables)

lemma demo_scrape_other:
  "name \<noteq> ''H2O'' \<Longrightarrow> scrape_compound_data demo_env name = None"
  by (simp add: scrape_compound_data_def demo_env_def)

lemma progress_file_5: "progress_file 4 = ''nist_data_progress_5.json''"
  by (simp add: progress_file_def show_nat.simps char_of_nat_eq)

text \<open>
  With \<open>H2O\<close>, the one compound that the site of \<open>demo_env\<close> knows, at position 5, the
  raw results are in \<open>nist_data_progress_5.json\<close> at the end of the loop.
\<close>

theorem scrape_multiple_compounds_checkpoint_witness:
  "progress_file 4 = ''nist_data_progress_5.json''
   \<and> fst (scrape_multiple_compounds demo_env world0
            [''CO2'', ''CH4'', ''NH3'', ''C2H5OH'', ''H2O''] True) = demo_raw
   \<and> (\<exists>s. serialize demo_raw = Inr s
          \<and> files (snd (scrape_multiple_compounds demo_env world0
                          [''CO2'', ''CH4'', ''NH3'', ''C2H5OH'', ''H2O''] True))
               ''nist_data_progress_5.json'' = Some (JsonFile s))"
proof -
  let ?cs = "[''CO2'', ''CH4'', ''NH3'', ''C2H5OH'', ''H2O'']"
  have r: "fst (scrape_multiple_compounds demo_env world0 ?cs True) = demo_raw"
    unfolding scrape_multiple_compounds_def scrape_loop_results
    by (simp add: demo_scrape_H2O demo_scrape_other dict_set_def demo_raw_def)
  have i: "(4::nat) < length ?cs" and m: "((4::nat) + 1) mod 5 = 0"
    and d: "scrape_compound_data demo_env (?cs ! 4) \<noteq> None"
    by (simp_all add: demo_scrape_H2O)
  have t: "take (4 + 1) ?cs = ?cs" by simp
  show ?thesis
    using scrape_multiple_compounds_checkpoint [OF i m, where ev = demo_env and w = world0] r d
    unfolding t progress_file_5 by (simp add: demo_writable)
qed

text \<open>
  Claim C9 as stated fails where the fifth compound is not found: five compounds have
  been processed, the results of \<open>H2O\<close> have been accumulated, and no file has been
  written. And \<open>collect_hackathon_dataset\<close>, whose loop goes through all thirty names,
  leaves no progress file.
\<close>

theorem scrape_multiple_compounds_no_checkpoint:
  "scrape_multiple_compounds demo_env world0 [''H2O'', ''CO2'', ''CH4'', ''NH3'', ''C2H5OH''] True
     = (demo_raw, world0)
   \<and> files (snd (collect_hackathon_dataset demo_env world0)) ''nist_data_progress_5.json'' = None"
proof -
  have "files (snd (collect_hackathon_dataset demo_env world0)) ''nist_data_progress_5.json''
        = files world0 ''nist_data_progress_5.json''"
    by (rule collect_hackathon_dataset_files) simp_all
  then show ?thesis
    by (simp add: scrape_multiple_compounds_def demo_scrape_H2O demo_scrape_other
        dict_set_def demo_raw_def world0_def)
qed

end
